theory Spec2Isabelle
  imports Main "HOL-Library.Sublist"
begin

section \<open>The Colab build script \<^verbatim>\<open>build_colab.py\<close>\<close>

text \<open>
  The script is glue code around three external collaborators: the Python runtime
  (imports, \<^verbatim>\<open>sys.argv\<close>, \<^verbatim>\<open>os.environ\<close>), the file system, and two kinds of
  subprocess (\<^verbatim>\<open>pip install\<close> and \<^verbatim>\<open>setup.py bdist_wheel\<close>). The embedding passes an
  explicit state (file system, process environment, trace of effects) through every
  statement, takes the behaviour of the collaborators as a parameter (the record
  \<open>world\<close>), and turns every \<^verbatim>\<open>raise\<close> and \<^verbatim>\<open>sys.exit\<close> into a value of the
  exception type.
\<close>

subsection \<open>Text\<close>

definition nl :: string where
  "nl = [CHR 0x0A]"

text \<open>The three markers of the messages, U+2713, U+26A0 and U+2717, as UTF-8 bytes.\<close>

definition check_mark :: string where
  "check_mark = [CHR 0xE2, CHR 0x9C, CHR 0x93]"

definition warn_mark :: string where
  "warn_mark = [CHR 0xE2, CHR 0x9A, CHR 0xA0]"

definition cross_mark :: string where
  "cross_mark = [CHR 0xE2, CHR 0x9C, CHR 0x97]"

text \<open>\<^verbatim>\<open>"=" * 60\<close>\<close>

definition rule60 :: string where
  "rule60 = replicate 60 (CHR ''='')"

text \<open>The module docstring, \<^verbatim>\<open>__doc__\<close> (lines 2 to 13 of the script).\<close>

definition doc :: string where
  "doc = nl
     @ ''Build script for Google Colab A100 environment.'' @ nl
     @ ''Builds the block_sparse_attn wheel and saves it to Google Drive.'' @ nl
     @ nl
     @ ''Usage in Colab:'' @ nl
     @ ''    # Mount Google Drive'' @ nl
     @ ''    from google.colab import drive'' @ nl
     @ ''    drive.mount('' @ [CHR 0x27] @ ''/content/drive'' @ [CHR 0x27] @ '')'' @ nl
     @ ''    '' @ nl
     @ ''    # Run the build script'' @ nl
     @ ''    !python build_colab.py /content/drive/MyDrive/path/to/wheels'' @ nl"

text \<open>\<^verbatim>\<open>str\<close> of a Python integer.\<close>

definition digit :: "nat \<Rightarrow> char" where
  "digit d = ''0123456789'' ! d"

fun str_nat :: "nat \<Rightarrow> string" where
  "str_nat n = (if n < 10 then [digit n] else str_nat (n div 10) @ [digit (n mod 10)])"

declare str_nat.simps [simp del]

definition str_int :: "int \<Rightarrow> string" where
  "str_int i = (if i < 0 then ''-'' @ str_nat (nat (- i)) else str_nat (nat i))"

text \<open>
  \<^verbatim>\<open>f"{size / (1024*1024):.2f}"\<close>: the size in mebibytes with two decimals. For a size
  below \<open>2 ^ 53\<close> bytes the float quotient is the exact rational \<open>size / 2 ^ 20\<close>, and the
  format rounds it to hundredths, a tie going to the even neighbour.
\<close>

definition hundredths_of_mib :: "nat \<Rightarrow> nat" where
  "hundredths_of_mib n =
     (let q = (n * 100) div 2 ^ 20; r = (n * 100) mod 2 ^ 20
      in if 2 * r > 2 ^ 20 then q + 1
         else if 2 * r < 2 ^ 20 then q
         else if even q then q else q + 1)"

definition fmt_mib :: "nat \<Rightarrow> string" where
  "fmt_mib n =
     (let h = hundredths_of_mib n
      in str_nat (h div 100) @ ''.'' @ [digit ((h mod 100) div 10), digit (h mod 10)])"

subsection \<open>Paths (\<^verbatim>\<open>pathlib.Path\<close> on POSIX)\<close>

text \<open>
  A \<^verbatim>\<open>Path\<close> is its root (empty for a relative path, \<^verbatim>\<open>/\<close>, or \<^verbatim>\<open>//\<close> when the string
  starts with exactly two slashes) and its components. The constructor splits the string
  at \<^verbatim>\<open>/\<close> and drops empty components and \<^verbatim>\<open>.\<close>; it keeps \<^verbatim>\<open>..\<close>, which only the
  operating system resolves, when the path is used.
\<close>

datatype pypath = PyPath (root: string) (parts: "string list")

definition anchored :: "pypath \<Rightarrow> bool" where
  "anchored p = (root p \<noteq> [])"

fun split_slash :: "string \<Rightarrow> string list" where
  "split_slash [] = [[]]"
| "split_slash (c # cs) =
     (if c = CHR ''/'' then [] # split_slash cs
      else (case split_slash cs of [] \<Rightarrow> [[c]] | x # xs \<Rightarrow> (c # x) # xs))"

definition Path :: "string \<Rightarrow> pypath" where
  "Path s =
     PyPath (if take 2 s = ''//'' \<and> take 3 s \<noteq> ''///'' then ''//''
             else if take 1 s = ''/'' then ''/'' else [])
            (filter (\<lambda>c. c \<noteq> [] \<and> c \<noteq> ''.'') (split_slash s))"

text \<open>\<^verbatim>\<open>p / name\<close>\<close>

definition joinpath :: "pypath \<Rightarrow> string \<Rightarrow> pypath" where
  "joinpath p n = PyPath (root p) (parts p @ [n])"

fun join_slash :: "string list \<Rightarrow> string" where
  "join_slash [] = []"
| "join_slash [x] = x"
| "join_slash (x # y # ys) = x @ ''/'' @ join_slash (y # ys)"

text \<open>\<^verbatim>\<open>str(p)\<close>\<close>

definition str_path :: "pypath \<Rightarrow> string" where
  "str_path p =
     (if anchored p then root p @ join_slash (parts p)
      else if parts p = [] then ''.'' else join_slash (parts p))"

subsection \<open>The file system\<close>

text \<open>
  The file system is a table from absolute paths (lists of names below the root) to
  entries; the root itself is always a directory. \<open>Special\<close> stands for whatever is
  neither a directory nor a regular file to \<^verbatim>\<open>is_dir\<close> and \<^verbatim>\<open>is_file\<close> (a FIFO, a socket,
  a dangling link). Symbolic links, permissions and file metadata are not modelled. The
  table is an association list, so that a directory can be listed; a well-formed table
  holds every ancestor of a path it holds, as a directory.
\<close>

type_synonym path = "string list"

datatype entry = RegularFile string | Directory | Special

type_synonym filesystem = "(path \<times> entry) list"

definition stat :: "filesystem \<Rightarrow> path \<Rightarrow> entry option" where
  "stat fs p = (if p = [] then Some Directory else map_of fs p)"

definition is_dir :: "filesystem \<Rightarrow> path \<Rightarrow> bool" where
  "is_dir fs p = (case stat fs p of Some Directory \<Rightarrow> True | _ \<Rightarrow> False)"

definition is_file :: "filesystem \<Rightarrow> path \<Rightarrow> bool" where
  "is_file fs p = (case stat fs p of Some (RegularFile b) \<Rightarrow> True | _ \<Rightarrow> False)"

text \<open>The names in directory \<open>d\<close>, in the order of the table.\<close>

definition listdir :: "filesystem \<Rightarrow> path \<Rightarrow> string list" where
  "listdir fs d = remdups (map (\<lambda>(q, e). last q) (filter (\<lambda>(q, e). q \<noteq> [] \<and> butlast q = d) fs))"

text \<open>
  Matching a name against a pattern; \<^verbatim>\<open>*\<close> is the only wildcard the script's patterns
  use. A pathlib pattern is matched against every name, hidden ones included.
\<close>

fun fnmatch :: "string \<Rightarrow> string \<Rightarrow> bool" where
  "fnmatch [] s = (s = [])"
| "fnmatch (c # p) [] = (c = CHR ''*'' \<and> fnmatch p [])"
| "fnmatch (c # p) (d # s) =
     (if c = CHR ''*'' then fnmatch p (d # s) \<or> fnmatch (c # p) s
      else c = d \<and> fnmatch p s)"

text \<open>
  \<^verbatim>\<open>Path(d).glob(pattern)\<close> for a pattern of one component: the matching names in \<open>d\<close>.
  (pathlib yields nothing when \<open>d\<close> is not a directory; in a well-formed table such a \<open>d\<close>
  has no names below it.)
\<close>

definition glob :: "filesystem \<Rightarrow> path \<Rightarrow> string \<Rightarrow> string list" where
  "glob fs d pat = filter (fnmatch pat) (listdir fs d)"

definition fs_put :: "path \<Rightarrow> entry \<Rightarrow> filesystem \<Rightarrow> filesystem" where
  "fs_put p e fs = (p, e) # filter (\<lambda>(q, e'). q \<noteq> p) fs"

text \<open>\<^verbatim>\<open>shutil.rmtree(p)\<close> removes \<open>p\<close> and everything below it; \<^verbatim>\<open>p.unlink()\<close> removes \<open>p\<close>.\<close>

definition fs_rmtree :: "path \<Rightarrow> filesystem \<Rightarrow> filesystem" where
  "fs_rmtree p fs = filter (\<lambda>(q, e). \<not> prefix p q) fs"

definition fs_unlink :: "path \<Rightarrow> filesystem \<Rightarrow> filesystem" where
  "fs_unlink p fs = filter (\<lambda>(q, e). q \<noteq> p) fs"

subsection \<open>Exceptions, effects, state\<close>

datatype exc =
    SystemExit int
  | CalledProcessError int "string list"
  | FileExistsError path
  | NotADirectoryError path
  | FileNotFoundError path
  | IsADirectoryError path
  | SameFileError path path
  | SpecialFileError path

text \<open>
  Every effect of the script is appended to a trace when the statement runs. \<open>Call\<close>
  records a subprocess: its command line, the environment it was given, and the file
  system it started on.
\<close>

datatype event =
    Print string
  | Call "string list" "string \<rightharpoonup> string" filesystem
  | Mkdir path
  | Rmtree path
  | Unlink path
  | Copy2 path path

record state =
  disk :: filesystem
  environ :: "string \<rightharpoonup> string"
  trace :: "event list"

text \<open>
  What the script cannot decide by itself: which modules import, what the runtime and
  the accelerator report, where the script runs, and what a subprocess does (its exit
  code and the file system it leaves, from its command line, its environment and the
  file system it starts on).
\<close>

record torch_info =
  torch_version :: string
  cuda :: "(string \<times> string) option"

record world =
  colab_importable :: bool
  version_info :: "nat \<times> nat \<times> nat"
  torch :: "torch_info option"
  executable :: string
  cwd :: path
  dir_st_size :: nat
  proc :: "string list \<Rightarrow> (string \<rightharpoonup> string) \<Rightarrow> filesystem \<Rightarrow> int \<times> filesystem"

text \<open>The exit status of the interpreter: that of \<^verbatim>\<open>sys.exit\<close>, or 1 after an uncaught
  exception (with a traceback), or 0 when the script runs to its end.\<close>

fun exit_status :: "exc + 'a \<Rightarrow> int" where
  "exit_status (Inr v) = 0"
| "exit_status (Inl (SystemExit n)) = n"
| "exit_status (Inl e) = 1"

definition print :: "string \<Rightarrow> state \<Rightarrow> state" where
  "print line s = s\<lparr>trace := trace s @ [Print line]\<rparr>"

subsection \<open>Library calls\<close>

text \<open>\<^verbatim>\<open>p.absolute()\<close>: the working directory is put in front, nothing is resolved.\<close>

definition absolute :: "world \<Rightarrow> pypath \<Rightarrow> pypath" where
  "absolute w p = (if anchored p then p else PyPath ''/'' (cwd w @ parts p))"

text \<open>
  The operating system resolves a path component by component, from the root or from
  the working directory: \<^verbatim>\<open>..\<close> leads to the directory above (the root is above itself),
  a name leads into the directory of that name. Without links a place in the file system
  has one path without \<^verbatim>\<open>..\<close>, and \<open>resolve\<close> computes it from the components alone:
  \<^verbatim>\<open>../repo/dist\<close> and \<^verbatim>\<open>dist\<close> are the same place when the working directory is
  \<^verbatim>\<open>/repo\<close>. \<open>visited\<close> lists the places on the way, the last one being the place itself.
\<close>

definition start :: "world \<Rightarrow> pypath \<Rightarrow> path" where
  "start w p = (if anchored p then [] else cwd w)"

fun norm :: "path \<Rightarrow> string list \<Rightarrow> path" where
  "norm cur [] = cur"
| "norm cur (x # xs) = norm (if x = ''..'' then butlast cur else cur @ [x]) xs"

fun visited :: "path \<Rightarrow> string list \<Rightarrow> path list" where
  "visited cur [] = [cur]"
| "visited cur (x # xs) = cur # visited (if x = ''..'' then butlast cur else cur @ [x]) xs"

definition resolve :: "world \<Rightarrow> pypath \<Rightarrow> path" where
  "resolve w p = norm (start w p) (parts p)"

text \<open>
  The walk itself needs every name before the last one to be a directory that is there:
  \<^verbatim>\<open>build/../out\<close> cannot be used once \<^verbatim>\<open>build\<close> is gone. The last name may be missing
  (the caller is about to create it, or finds that it is not there). An exception names
  the place \<open>whole\<close> that the path stands for.
\<close>

fun walk :: "filesystem \<Rightarrow> path \<Rightarrow> path \<Rightarrow> string list \<Rightarrow> exc + path" where
  "walk fs whole cur [] = Inr cur"
| "walk fs whole cur (x # xs) =
     (if x = ''..'' then walk fs whole (butlast cur) xs
      else if xs = [] then Inr (cur @ [x])
      else (case stat fs (cur @ [x]) of
              None \<Rightarrow> Inl (FileNotFoundError whole)
            | Some Directory \<Rightarrow> walk fs whole (cur @ [x]) xs
            | Some e \<Rightarrow> Inl (NotADirectoryError whole)))"

definition locate :: "world \<Rightarrow> filesystem \<Rightarrow> pypath \<Rightarrow> exc + path" where
  "locate w fs p = walk fs (resolve w p) (start w p) (parts p)"

text \<open>
  \<^verbatim>\<open>p.mkdir(parents=True, exist_ok=True)\<close>: every missing directory on the way is created,
  in a directory that is there; an existing directory is accepted; \<^verbatim>\<open>..\<close> leads up;
  anything else in the way raises. pathlib first hands the whole path to \<^verbatim>\<open>os.mkdir\<close>,
  and goes through the parents one by one only after a name on the way was missing
  (\<open>retry\<close>): a file in the way is a \<^verbatim>\<open>NotADirectoryError\<close> for the whole path when every
  name before it was there and names follow it, and a \<^verbatim>\<open>FileExistsError\<close> for the path
  up to it otherwise. \<open>cur\<close> is the directory reached so far: the root or the working
  directory at first, then one that was found or made, or the one above it. The place
  reached at the end has to be a directory, as it is in every well-formed table in which
  the working directory is there.
\<close>

fun makedirs ::
  "path \<Rightarrow> bool \<Rightarrow> path \<Rightarrow> string list \<Rightarrow> filesystem \<Rightarrow> (exc + unit) \<times> filesystem" where
  "makedirs whole retry cur [] fs =
     (if is_dir fs cur then (Inr (), fs) else (Inl (FileNotFoundError whole), fs))"
| "makedirs whole retry cur (x # xs) fs =
     (if x = ''..'' then makedirs whole retry (butlast cur) xs fs
      else
        (let p = cur @ [x]
         in case stat fs p of
              None \<Rightarrow>
                if is_dir fs cur then makedirs whole True p xs (fs_put p Directory fs)
                else (Inl (FileNotFoundError p), fs)
            | Some Directory \<Rightarrow> makedirs whole retry p xs fs
            | Some e \<Rightarrow>
                (Inl (if retry \<or> xs = [] then FileExistsError p else NotADirectoryError whole),
                 fs)))"

definition mkdir :: "world \<Rightarrow> pypath \<Rightarrow> state \<Rightarrow> (exc + unit) \<times> state" where
  "mkdir w p s =
     (case makedirs (resolve w p) False (start w p) (parts p) (disk s) of
        (r, fs') \<Rightarrow> (r, s\<lparr>disk := fs', trace := trace s @ [Mkdir (resolve w p)]\<rparr>))"

definition rmtree :: "path \<Rightarrow> state \<Rightarrow> state" where
  "rmtree p s = s\<lparr>disk := fs_rmtree p (disk s), trace := trace s @ [Rmtree p]\<rparr>"

definition unlink :: "path \<Rightarrow> state \<Rightarrow> state" where
  "unlink p s = s\<lparr>disk := fs_unlink p (disk s), trace := trace s @ [Unlink p]\<rparr>"

text \<open>
  \<^verbatim>\<open>subprocess.check_call(cmd, env=env)\<close>: runs the command to its end and raises
  \<^verbatim>\<open>CalledProcessError\<close> when the exit code is not 0 (a negative code stands for a
  signal). The interpreter \<^verbatim>\<open>sys.executable\<close> is taken to exist, so the call itself starts.
\<close>

definition check_call ::
  "world \<Rightarrow> string list \<Rightarrow> (string \<rightharpoonup> string) \<Rightarrow> state \<Rightarrow> (exc + unit) \<times> state" where
  "check_call w cmd env s =
     (case proc w cmd env (disk s) of
        (rc, fs') \<Rightarrow>
          (let s' = s\<lparr>disk := fs', trace := trace s @ [Call cmd env (disk s)]\<rparr>
           in if rc = 0 then (Inr (), s') else (Inl (CalledProcessError rc cmd), s')))"

text \<open>
  \<^verbatim>\<open>shutil.copy2(src, dst)\<close>: when \<open>dst\<close> is a directory the file goes into it, under the
  name of \<open>src\<close>; copying a file onto itself raises, under whatever two paths the one
  file is given; the target's directory must exist. \<open>copy_to\<close> is what happens once both
  paths have led somewhere, to the places \<open>a\<close> and \<open>b0\<close>.
\<close>

definition copy_to :: "string \<Rightarrow> path \<Rightarrow> path \<Rightarrow> state \<Rightarrow> (exc + unit) \<times> state" where
  "copy_to name a b0 s1 =
     (let b = (if is_dir (disk s1) b0 then b0 @ [name] else b0)
      in if a = b \<and> stat (disk s1) a \<noteq> None then (Inl (SameFileError a b), s1)
         else case stat (disk s1) a of
                None \<Rightarrow> (Inl (FileNotFoundError a), s1)
              | Some Directory \<Rightarrow> (Inl (IsADirectoryError a), s1)
              | Some Special \<Rightarrow> (Inl (SpecialFileError a), s1)
              | Some (RegularFile content) \<Rightarrow>
                  (case stat (disk s1) b of
                     Some Directory \<Rightarrow> (Inl (IsADirectoryError b), s1)
                   | Some Special \<Rightarrow> (Inl (SpecialFileError b), s1)
                   | _ \<Rightarrow>
                       if is_dir (disk s1) (butlast b)
                       then (Inr (), s1\<lparr>disk := fs_put b (RegularFile content) (disk s1)\<rparr>)
                       else if stat (disk s1) (butlast b) = None then (Inl (FileNotFoundError b), s1)
                       else (Inl (NotADirectoryError b), s1)))"

definition copy2 :: "world \<Rightarrow> pypath \<Rightarrow> pypath \<Rightarrow> state \<Rightarrow> (exc + unit) \<times> state" where
  "copy2 w src dst s =
     (let s1 = s\<lparr>trace := trace s @ [Copy2 (resolve w src) (resolve w dst)]\<rparr>
      in case locate w (disk s) src of
           Inl e \<Rightarrow> (Inl e, s1)
         | Inr a \<Rightarrow>
             (case locate w (disk s) dst of
                Inr b0 \<Rightarrow> copy_to (last (parts src)) a b0 s1
              | Inl e \<Rightarrow>
                  (case stat (disk s) a of
                     None \<Rightarrow> (Inl (FileNotFoundError a), s1)
                   | Some Directory \<Rightarrow> (Inl (IsADirectoryError a), s1)
                   | Some Special \<Rightarrow> (Inl (SpecialFileError a), s1)
                   | Some (RegularFile content) \<Rightarrow> (Inl e, s1))))"

text \<open>\<^verbatim>\<open>p.stat().st_size\<close>\<close>

definition st_size :: "world \<Rightarrow> filesystem \<Rightarrow> pypath \<Rightarrow> exc + nat" where
  "st_size w fs p =
     (case locate w fs p of
        Inl e \<Rightarrow> Inl e
      | Inr l \<Rightarrow>
          (case stat fs l of
             None \<Rightarrow> Inl (FileNotFoundError l)
           | Some (RegularFile content) \<Rightarrow> Inr (length content)
           | Some Directory \<Rightarrow> Inr (dir_st_size w)
           | Some Special \<Rightarrow> Inr 0))"

subsection \<open>\<^verbatim>\<open>check_colab_environment\<close>\<close>

definition check_colab_environment :: "world \<Rightarrow> state \<Rightarrow> (exc + unit) \<times> state" where
  "check_colab_environment w s =
     (let s1 = print rule60 s;
          s2 = print ''Checking Colab Environment'' s1;
          s3 = print rule60 s2;
          s4 = (if colab_importable w
                then print (check_mark @ '' Running in Google Colab'') s3
                else print (warn_mark @ '' Warning: Not running in Google Colab'') s3);
          s5 = (case version_info w of
                  (major, minor, micro) \<Rightarrow>
                    print (check_mark @ '' Python version: '' @ str_nat major @ ''.''
                           @ str_nat minor @ ''.'' @ str_nat micro) s4)
      in case torch w of
           None \<Rightarrow> (Inl (SystemExit 1), print (cross_mark @ '' PyTorch not installed'') s5)
         | Some t \<Rightarrow>
             (let s6 = print (check_mark @ '' PyTorch version: '' @ torch_version t) s5;
                  s7 = (case cuda t of
                          Some (cuda_version, device_name) \<Rightarrow>
                            print (check_mark @ '' CUDA device: '' @ device_name)
                              (print (check_mark @ '' CUDA available: '' @ cuda_version) s6)
                        | None \<Rightarrow> print (warn_mark @ '' CUDA not available'') s6);
                  s8 = (case environ s7 ''CUDA_HOME'' of
                          None \<Rightarrow> print (warn_mark @ '' CUDA_HOME not set'') s7
                        | Some cuda_home \<Rightarrow>
                            if cuda_home \<noteq> []
                            then print (check_mark @ '' CUDA_HOME: '' @ cuda_home) s7
                            else print (warn_mark @ '' CUDA_HOME not set'') s7)
              in (Inr (), print [] s8)))"

subsection \<open>\<^verbatim>\<open>install_build_dependencies\<close>\<close>

definition dependencies :: "string list" where
  "dependencies = [''setuptools>=68.0.0'', ''wheel'', ''ninja'', ''packaging'']"

definition pip_install :: "world \<Rightarrow> string \<Rightarrow> string list" where
  "pip_install w dep = [executable w, ''-m'', ''pip'', ''install'', ''--upgrade'', dep]"

text \<open>The loop over the dependencies; the subprocess inherits the process environment.\<close>

fun install_each :: "world \<Rightarrow> string list \<Rightarrow> state \<Rightarrow> (exc + unit) \<times> state" where
  "install_each w [] s = (Inr (), s)"
| "install_each w (dep # deps) s =
     (let s1 = print (''Installing '' @ dep @ ''...'') s
      in case check_call w (pip_install w dep) (environ s1) s1 of
           (Inl e, s2) \<Rightarrow> (Inl e, s2)
         | (Inr u, s2) \<Rightarrow> install_each w deps s2)"

definition install_build_dependencies :: "world \<Rightarrow> state \<Rightarrow> (exc + unit) \<times> state" where
  "install_build_dependencies w s =
     (let s1 = print rule60 s;
          s2 = print ''Installing Build Dependencies'' s1;
          s3 = print rule60 s2
      in case install_each w dependencies s3 of
           (Inl e, s4) \<Rightarrow> (Inl e, s4)
         | (Inr u, s4) \<Rightarrow> (Inr (), print (check_mark @ '' Build dependencies installed'' @ nl) s4))"

subsection \<open>\<^verbatim>\<open>build_wheel\<close>\<close>

definition stale_patterns :: "string list" where
  "stale_patterns = [''build'', ''dist'', ''*.egg-info'']"

text \<open>
  The inner loop of the cleanup (lines 96 to 102), over the names one pattern matched in
  the working directory: a directory is removed with all it holds, a regular file is
  unlinked, anything else is left alone.
\<close>

fun remove_each :: "world \<Rightarrow> string list \<Rightarrow> state \<Rightarrow> state" where
  "remove_each w [] s = s"
| "remove_each w (n # ns) s =
     (let p = cwd w @ [n]
      in remove_each w ns
           (if is_dir (disk s) p then print (''  Removed '' @ n) (rmtree p s)
            else if is_file (disk s) p then print (''  Removed '' @ n) (unlink p s)
            else s))"

text \<open>The outer loop (line 95), over the patterns; each glob sees the file system as the
  patterns before it left it.\<close>

fun clean_previous_builds :: "world \<Rightarrow> string list \<Rightarrow> state \<Rightarrow> state" where
  "clean_previous_builds w [] s = s"
| "clean_previous_builds w (dir_name # rest) s =
     clean_previous_builds w rest (remove_each w (glob (disk s) (cwd w) dir_name) s)"

definition build_cmd :: "world \<Rightarrow> string list" where
  "build_cmd w = [executable w, ''setup.py'', ''bdist_wheel'']"

text \<open>The copy loop (lines 125 to 129), over the names of the wheels found.\<close>

fun copy_each :: "world \<Rightarrow> pypath \<Rightarrow> string list \<Rightarrow> state \<Rightarrow> (exc + unit) \<times> state" where
  "copy_each w output_path [] s = (Inr (), s)"
| "copy_each w output_path (n # ns) s =
     (let wheel = joinpath (Path ''dist'') n;
          dest = joinpath output_path n
      in case copy2 w wheel dest s of
           (Inl e, s1) \<Rightarrow> (Inl e, s1)
         | (Inr u, s1) \<Rightarrow>
             (let s2 = print (check_mark @ '' Built and saved: '' @ str_path dest) s1
              in case st_size w (disk s2) dest of
                   Inl e \<Rightarrow> (Inl e, s2)
                 | Inr sz \<Rightarrow>
                     copy_each w output_path ns (print (''  Size: '' @ fmt_mib sz @ '' MB'') s2)))"

text \<open>The body of the \<^verbatim>\<open>try\<close> (lines 107 to 131).\<close>

definition build_wheel_try :: "world \<Rightarrow> pypath \<Rightarrow> state \<Rightarrow> (exc + string) \<times> state" where
  "build_wheel_try w output_path s =
     (let env = (environ s)(''FLASH_ATTENTION_FORCE_BUILD'' \<mapsto> ''TRUE'')
      in case check_call w (build_cmd w) env s of
           (Inl e, s1) \<Rightarrow> (Inl e, s1)
         | (Inr u, s1) \<Rightarrow>
             (let dist_dir = Path ''dist'';
                  wheels = glob (disk s1) (resolve w dist_dir) ''*.whl''
              in case wheels of
                   [] \<Rightarrow> (Inl (SystemExit 1), print (cross_mark @ '' No wheel file found in dist/'') s1)
                 | wheel0 # others \<Rightarrow>
                     (case copy_each w output_path wheels s1 of
                        (Inl e, s2) \<Rightarrow> (Inl e, s2)
                      | (Inr u, s2) \<Rightarrow> (Inr wheel0, s2))))"

text \<open>The handler (lines 133 to 135): only \<^verbatim>\<open>CalledProcessError\<close> is caught.\<close>

fun except_CalledProcessError :: "(exc + string) \<times> state \<Rightarrow> (exc + string) \<times> state" where
  "except_CalledProcessError (Inl (CalledProcessError returncode cmd), s) =
     (Inl (SystemExit 1),
      print (cross_mark @ '' Build failed with exit code '' @ str_int returncode) s)"
| "except_CalledProcessError r = r"

definition build_wheel :: "world \<Rightarrow> string \<Rightarrow> state \<Rightarrow> (exc + string) \<times> state" where
  "build_wheel w output_dir s =
     (let s1 = print rule60 s;
          s2 = print ''Building Wheel'' s1;
          s3 = print rule60 s2;
          output_path = Path output_dir
      in case mkdir w output_path s3 of
           (Inl e, s4) \<Rightarrow> (Inl e, s4)
         | (Inr u, s4) \<Rightarrow>
             (let s5 = print (''Output directory: '' @ str_path (absolute w output_path)) s4;
                  s6 = print ''Cleaning previous builds...'' s5;
                  s7 = clean_previous_builds w stale_patterns s6;
                  s8 = print (nl @ ''Building wheel...'') s7
              in except_CalledProcessError (build_wheel_try w output_path s8)))"

subsection \<open>\<^verbatim>\<open>main\<close>\<close>

definition completion_report :: "world \<Rightarrow> string \<Rightarrow> string \<Rightarrow> state \<Rightarrow> state" where
  "completion_report w output_dir wheel_name s =
     (let s1 = print (nl @ rule60) s;
          s2 = print ''Build Complete!'' s1;
          s3 = print rule60 s2;
          s4 = print (nl @ ''Wheel saved to: '' @ str_path (absolute w (Path output_dir))
                      @ ''/'' @ wheel_name) s3;
          s5 = print (nl @ ''To install the wheel:'') s4;
          s6 = print (''  !pip install '' @ str_path (absolute w (Path output_dir))
                      @ ''/'' @ wheel_name) s5
      in print [] s6)"

definition main :: "world \<Rightarrow> string list \<Rightarrow> state \<Rightarrow> (exc + unit) \<times> state" where
  "main w argv s =
     (if length argv < 2
      then (Inl (SystemExit 1),
            print ''Usage: python build_colab.py <output_directory>''
              (print (nl @ ''Error: Output directory not specified'') (print doc s)))
      else
        (let output_dir = argv ! 1;
             s1 = print (nl @ rule60) s;
             s2 = print ''Block Sparse Attention - Colab Build Script'' s1;
             s3 = print (rule60 @ nl) s2
         in case check_colab_environment w s3 of
              (Inl e, s4) \<Rightarrow> (Inl e, s4)
            | (Inr u, s4) \<Rightarrow>
                (case install_build_dependencies w s4 of
                   (Inl e, s5) \<Rightarrow> (Inl e, s5)
                 | (Inr u, s5) \<Rightarrow>
                     (case build_wheel w output_dir s5 of
                        (Inl e, s6) \<Rightarrow> (Inl e, s6)
                      | (Inr wheel_name, s6) \<Rightarrow>
                          (Inr (), completion_report w output_dir wheel_name s6)))))"

subsection \<open>Reading a trace\<close>

text \<open>The subprocesses of a trace, and its copies, in order.\<close>

fun calls_of :: "event list \<Rightarrow> (string list \<times> (string \<rightharpoonup> string) \<times> filesystem) list" where
  "calls_of [] = []"
| "calls_of (Call cmd env t # evs) = (cmd, env, t) # calls_of evs"
| "calls_of (ev # evs) = calls_of evs"

fun copies_of :: "event list \<Rightarrow> (path \<times> path) list" where
  "copies_of [] = []"
| "copies_of (Copy2 a b # evs) = (a, b) # copies_of evs"
| "copies_of (ev # evs) = copies_of evs"

text \<open>A name that one of the cleanup patterns matches.\<close>

definition stale_name :: "string \<Rightarrow> bool" where
  "stale_name n = list_ex (\<lambda>pat. fnmatch pat n) stale_patterns"

text \<open>The environment the build subprocess is given.\<close>

definition build_env :: "state \<Rightarrow> (string \<rightharpoonup> string)" where
  "build_env s = (environ s)(''FLASH_ATTENTION_FORCE_BUILD'' \<mapsto> ''TRUE'')"

subsection \<open>Notions used to state the properties\<close>

text \<open>Nothing that the cleanup would remove is left at \<open>p\<close>: no directory and no regular file.\<close>

definition gone :: "filesystem \<Rightarrow> path \<Rightarrow> bool" where
  "gone t p = (\<not> is_dir t p \<and> \<not> is_file t p)"

text \<open>
  The places that a walk enters by a name (and not by \<^verbatim>\<open>..\<close>): the directories that
  \<^verbatim>\<open>mkdir\<close> finds or makes, and that a later use of the same path needs.
\<close>

fun entered :: "path \<Rightarrow> string list \<Rightarrow> path list" where
  "entered cur [] = []"
| "entered cur (x # xs) =
     (if x = ''..'' then entered (butlast cur) xs else (cur @ [x]) # entered (cur @ [x]) xs)"

text \<open>What a successful \<^verbatim>\<open>mkdir\<close> of \<open>p\<close> leaves in the file system \<open>t\<close>.\<close>

definition made :: "world \<Rightarrow> pypath \<Rightarrow> filesystem \<Rightarrow> bool" where
  "made w p t =
     (is_dir t (resolve w p) \<and> (\<forall>q \<in> set (entered (start w p) (parts p)). is_dir t q))"

text \<open>The state after the title lines of \<^verbatim>\<open>main\<close> (lines 148 to 150).\<close>

definition banner :: "state \<Rightarrow> state" where
  "banner s = print (rule60 @ nl) (print ''Block Sparse Attention - Colab Build Script'' (print (nl @ rule60) s))"

text \<open>The state in which \<^verbatim>\<open>mkdir\<close> runs, when the two phases before it succeed.\<close>

definition pre_mkdir :: "world \<Rightarrow> state \<Rightarrow> state" where
  "pre_mkdir w s =
     print rule60 (print ''Building Wheel'' (print rule60
       (snd (install_build_dependencies w (snd (check_colab_environment w (banner s)))))))"

text \<open>
  The state in which the \<^verbatim>\<open>try\<close> of \<^verbatim>\<open>build_wheel\<close> is entered, from the state \<open>s4\<close>
  that \<^verbatim>\<open>mkdir\<close> left (lines 91 to 105).
\<close>

definition build_entry :: "world \<Rightarrow> pypath \<Rightarrow> state \<Rightarrow> state" where
  "build_entry w output_path s4 =
     print (nl @ ''Building wheel...'')
       (clean_previous_builds w stale_patterns
          (print ''Cleaning previous builds...''
             (print (''Output directory: '' @ str_path (absolute w output_path)) s4)))"

text \<open>What \<^verbatim>\<open>main\<close> makes of the result of \<^verbatim>\<open>build_wheel\<close> (lines 159 to 167).\<close>

definition finish :: "world \<Rightarrow> string \<Rightarrow> (exc + string) \<times> state \<Rightarrow> (exc + unit) \<times> state" where
  "finish w output_dir x =
     (case x of (Inl e, s6) \<Rightarrow> (Inl e, s6)
              | (Inr wheel_name, s6) \<Rightarrow> (Inr (), completion_report w output_dir wheel_name s6))"

text \<open>
  The subprocesses of the trace \<open>tr\<close> are installer invocations with the environment of
  \<open>s\<close>; a failing one decides the result \<open>r\<close> and is the last event of the trace.
\<close>

definition pip_calls :: "world \<Rightarrow> state \<Rightarrow> exc + unit \<Rightarrow> event list \<Rightarrow> bool" where
  "pip_calls w s r tr =
     (\<forall>(c, e, t) \<in> set (calls_of tr). c \<in> pip_install w ` set dependencies \<and> e = environ s \<and>
        (fst (proc w c e t) \<noteq> 0 \<longrightarrow>
           r = Inl (CalledProcessError (fst (proc w c e t)) c) \<and> last tr = Call c e t))"

subsection \<open>Example runs\<close>

text \<open>
  A checkout in \<^verbatim>\<open>/repo\<close> with leftovers of an earlier build, an empty environment, and a
  world without Colab and without CUDA whose installer invocations succeed and change
  nothing; what the build does is a parameter.
\<close>

definition demo_disk :: filesystem where
  "demo_disk =
     [([''repo''], Directory),
      ([''repo'', ''setup.py''], RegularFile ''from setuptools import setup''),
      ([''repo'', ''build''], Directory),
      ([''repo'', ''build'', ''lib''], Directory),
      ([''repo'', ''old.egg-info''], RegularFile ''PKG-INFO'')]"

definition demo_state :: state where
  "demo_state = \<lparr>disk = demo_disk, environ = Map.empty, trace = []\<rparr>"

definition demo_proc ::
  "(filesystem \<Rightarrow> int \<times> filesystem) \<Rightarrow> string list \<Rightarrow> (string \<rightharpoonup> string) \<Rightarrow> filesystem
     \<Rightarrow> int \<times> filesystem" where
  "demo_proc build cmd env t =
     (if cmd = [''python3'', ''setup.py'', ''bdist_wheel''] then build t else (0, t))"

definition demo_world :: "(filesystem \<Rightarrow> int \<times> filesystem) \<Rightarrow> world" where
  "demo_world build =
     \<lparr>colab_importable = False, version_info = (3, 10, 12),
      torch = Some \<lparr>torch_version = ''2.1.0'', cuda = None\<rparr>,
      executable = ''python3'', cwd = [''repo''], dir_st_size = 4096, proc = demo_proc build\<rparr>"

definition demo_argv :: "string list" where
  "demo_argv = [''build_colab.py'', ''/drive/wheels'']"

text \<open>The environment and the file system on which the build starts in these runs.\<close>

definition demo_env :: "string \<rightharpoonup> string" where
  "demo_env = [''FLASH_ATTENTION_FORCE_BUILD'' \<mapsto> ''TRUE'']"

definition demo_snap :: filesystem where
  "demo_snap =
     [([''drive'', ''wheels''], Directory),
      ([''drive''], Directory),
      ([''repo''], Directory),
      ([''repo'', ''setup.py''], RegularFile ''from setuptools import setup'')]"

text \<open>
  Three builds: one that fails with exit code 2, one that succeeds and leaves nothing,
  one that leaves a wheel in \<^verbatim>\<open>dist\<close>.
\<close>

definition build_fails :: "filesystem \<Rightarrow> int \<times> filesystem" where
  "build_fails t = (2, t)"

definition build_empty :: "filesystem \<Rightarrow> int \<times> filesystem" where
  "build_empty t = (0, t)"

definition build_ok :: "filesystem \<Rightarrow> int \<times> filesystem" where
  "build_ok t =
     (0, fs_put [''repo'', ''dist'', ''pkg-1.0.whl''] (RegularFile ''wheel'')
           (fs_put [''repo'', ''dist''] Directory t))"

text \<open>A world in which every subprocess exits with code 1, and the first installer command.\<close>

definition pip_fails :: "world" where
  "pip_fails = (demo_world build_ok)\<lparr>proc := (\<lambda>cmd env t. (1, t))\<rparr>"

definition pip_setuptools :: "string list" where
  "pip_setuptools = [''python3'', ''-m'', ''pip'', ''install'', ''--upgrade'', ''setuptools>=68.0.0'']"

text \<open>An output directory below \<^verbatim>\<open>dist\<close>, and the file system on which the build then starts.\<close>

definition nested_argv :: "string list" where
  "nested_argv = [''build_colab.py'', ''dist/wheels'']"

definition nested_snap :: filesystem where
  "nested_snap =
     [([''repo''], Directory),
      ([''repo'', ''setup.py''], RegularFile ''from setuptools import setup'')]"

text \<open>The directory \<^verbatim>\<open>dist\<close> itself as output directory.\<close>

definition dist_argv :: "string list" where
  "dist_argv = [''build_colab.py'', ''dist'']"

section \<open>Properties\<close>

lemmas path_eval = Path_def resolve_def start_def anchored_def

subsection \<open>Printing and traces\<close>

lemma disk_print [simp]: "disk (print l s) = disk s"
  by (simp add: print_def)

lemma environ_print [simp]: "environ (print l s) = environ s"
  by (simp add: print_def)

lemma trace_print [simp]: "trace (print l s) = trace s @ [Print l]"
  by (simp add: print_def)

lemma calls_of_append [simp]: "calls_of (xs @ ys) = calls_of xs @ calls_of ys"
  by (induction xs rule: calls_of.induct) simp_all

lemma copies_of_append [simp]: "copies_of (xs @ ys) = copies_of xs @ copies_of ys"
  by (induction xs rule: copies_of.induct) simp_all

lemma Call_in_trace: "Call cmd env t \<in> set evs \<longleftrightarrow> (cmd, env, t) \<in> set (calls_of evs)"
  by (induction evs rule: calls_of.induct) auto

lemma Copy2_in_trace: "Copy2 a b \<in> set evs \<longleftrightarrow> (a, b) \<in> set (copies_of evs)"
  by (induction evs rule: copies_of.induct) auto

subsection \<open>The file system table\<close>

lemma map_of_filter_key:
  "map_of (filter (\<lambda>(q, e). P q) t) p = (if P p then map_of t p else None)"
  by (induction t) auto

lemma stat_fs_put: "stat (fs_put q e t) p = (if p = [] then Some Directory else if p = q then Some e else stat t p)"
  by (simp add: stat_def fs_put_def map_of_filter_key)

lemma stat_fs_rmtree: "stat (fs_rmtree q t) p = (if p \<noteq> [] \<and> prefix q p then None else stat t p)"
  by (simp add: stat_def fs_rmtree_def map_of_filter_key)

lemma stat_fs_unlink: "stat (fs_unlink q t) p = (if p \<noteq> [] \<and> p = q then None else stat t p)"
  by (simp add: stat_def fs_unlink_def map_of_filter_key)

lemma in_listdir: "n \<in> set (listdir t d) \<longleftrightarrow> map_of t (d @ [n]) \<noteq> None"
proof -
  have "n \<in> set (listdir t d) \<longleftrightarrow> (\<exists>q e. (q, e) \<in> set t \<and> q \<noteq> [] \<and> butlast q = d \<and> last q = n)"
    by (auto simp: listdir_def image_iff)
  also have "\<dots> \<longleftrightarrow> (\<exists>e. (d @ [n], e) \<in> set t)"
    by (metis append_butlast_last_id butlast_snoc last_snoc snoc_eq_iff_butlast)
  also have "\<dots> \<longleftrightarrow> map_of t (d @ [n]) \<noteq> None"
    by (metis map_of_SomeD weak_map_of_SomeI not_Some_eq)
  finally show ?thesis .
qed

lemma resolve_dist [simp]: "resolve w (Path ''dist'') = cwd w @ [''dist'']"
  by (simp add: resolve_def start_def anchored_def Path_def)

lemma norm_snoc: "n \<noteq> ''..'' \<Longrightarrow> norm cur (xs @ [n]) = norm cur xs @ [n]"
  by (induction xs arbitrary: cur) simp_all

lemma start_joinpath [simp]: "start w (joinpath p n) = start w p"
  by (simp add: start_def anchored_def joinpath_def)

lemma parts_joinpath [simp]: "parts (joinpath p n) = parts p @ [n]"
  by (simp add: joinpath_def)

lemma resolve_joinpath: "n \<noteq> ''..'' \<Longrightarrow> resolve w (joinpath p n) = resolve w p @ [n]"
  by (simp add: resolve_def norm_snoc)

lemma norm_visited: "norm cur xs \<in> set (visited cur xs)"
  by (induction xs arbitrary: cur) simp_all

lemma entered_visited: "set (entered cur xs) \<subseteq> set (visited cur xs)"
proof (induction xs arbitrary: cur)
  case Nil
  then show ?case by simp
next
  case (Cons x xs)
  from Cons.IH [of "butlast cur"] Cons.IH [of "cur @ [x]"] show ?case
    by (cases xs) auto
qed

lemma walk_entered:
  "\<forall>q \<in> set (entered cur xs). is_dir fs q \<Longrightarrow> n \<noteq> ''..'' \<Longrightarrow>
   walk fs whole cur (xs @ [n]) = Inr (norm cur xs @ [n])"
proof (induction xs arbitrary: cur)
  case Nil
  then show ?case by simp
next
  case (Cons x xs)
  show ?case
  proof (cases "x = ''..''")
    case True
    with Cons.prems Cons.IH [of "butlast cur"] show ?thesis by simp
  next
    case False
    with Cons.prems have d: "stat fs (cur @ [x]) = Some Directory"
      by (auto simp: is_dir_def split: option.splits entry.splits)
    from False Cons.prems Cons.IH [of "cur @ [x]"]
    have "walk fs whole (cur @ [x]) (xs @ [n]) = Inr (norm (cur @ [x]) xs @ [n])" by simp
    with False d show ?thesis by simp
  qed
qed

lemma locate_joinpath:
  assumes "\<forall>q \<in> set (entered (start w p) (parts p)). is_dir fs q" and "n \<noteq> ''..''"
  shows "locate w fs (joinpath p n) = Inr (resolve w p @ [n])"
  using walk_entered [OF assms, of "resolve w (joinpath p n)"]
  by (simp add: locate_def resolve_def)

lemma whl_not_dotdot: "fnmatch ''*.whl'' n \<Longrightarrow> n \<noteq> ''..''"
  by auto

subsection \<open>The environment check and the installer loop\<close>

lemma check_colab_environment_result:
  "fst (check_colab_environment w s) = (if torch w = None then Inl (SystemExit 1) else Inr ())"
  by (simp add: check_colab_environment_def Let_def split: option.splits prod.splits)

lemma check_colab_environment_frame:
  "disk (snd (check_colab_environment w s)) = disk s"
  "environ (snd (check_colab_environment w s)) = environ s"
  "calls_of (trace (snd (check_colab_environment w s))) = calls_of (trace s)"
  "copies_of (trace (snd (check_colab_environment w s))) = copies_of (trace s)"
  by (simp_all add: check_colab_environment_def Let_def split: option.splits prod.splits)

lemma check_call_simps:
  "fst (check_call w cmd env s) =
     (if fst (proc w cmd env (disk s)) = 0 then Inr ()
      else Inl (CalledProcessError (fst (proc w cmd env (disk s))) cmd))"
  "disk (snd (check_call w cmd env s)) = snd (proc w cmd env (disk s))"
  "environ (snd (check_call w cmd env s)) = environ s"
  "trace (snd (check_call w cmd env s)) = trace s @ [Call cmd env (disk s)]"
  by (simp_all add: check_call_def Let_def split: prod.splits)

lemma install_each_inv:
  "install_each w deps s = (r, s') \<Longrightarrow>
     environ s' = environ s \<and> copies_of (trace s') = copies_of (trace s) \<and>
     (r = Inr () \<or> (\<exists>rc c. r = Inl (CalledProcessError rc c))) \<and>
     (\<exists>cs. calls_of (trace s') = calls_of (trace s) @ cs \<and>
        (\<forall>(c, e, t) \<in> set cs. c \<in> pip_install w ` set deps \<and> e = environ s \<and>
           (fst (proc w c e t) \<noteq> 0 \<longrightarrow>
              r = Inl (CalledProcessError (fst (proc w c e t)) c) \<and> last (trace s') = Call c e t)))"
proof (induction deps arbitrary: s)
  case Nil
  then show ?case by auto
next
  case (Cons dep deps)
  let ?s1 = "print (''Installing '' @ dep @ ''...'') s"
  let ?c = "pip_install w dep"
  let ?rc = "fst (proc w ?c (environ s) (disk s))"
  let ?s2 = "snd (check_call w ?c (environ s) ?s1)"
  show ?case
  proof (cases "?rc = 0")
    case False
    with Cons.prems have r: "r = Inl (CalledProcessError ?rc ?c)" and s': "s' = ?s2"
      by (auto simp: Let_def check_call_def split: prod.splits)
    have "calls_of (trace s') = calls_of (trace s) @ [(?c, environ s, disk s)]"
      by (simp add: s' check_call_simps)
    moreover have "environ s' = environ s" "copies_of (trace s') = copies_of (trace s)"
      by (simp_all add: s' check_call_simps)
    moreover have "last (trace s') = Call ?c (environ s) (disk s)"
      by (simp add: s' check_call_simps)
    ultimately show ?thesis using r by auto
  next
    case True
    with Cons.prems have rec: "install_each w deps ?s2 = (r, s')"
      by (auto simp: Let_def check_call_def split: prod.splits)
    have s2: "environ ?s2 = environ s" "copies_of (trace ?s2) = copies_of (trace s)"
      "calls_of (trace ?s2) = calls_of (trace s) @ [(?c, environ s, disk s)]"
      by (simp_all add: check_call_simps)
    from Cons.IH [OF rec] obtain cs where
      ih: "environ s' = environ ?s2" "copies_of (trace s') = copies_of (trace ?s2)"
        "r = Inr () \<or> (\<exists>rc c. r = Inl (CalledProcessError rc c))"
        "calls_of (trace s') = calls_of (trace ?s2) @ cs"
        "\<forall>(c, e, t) \<in> set cs. c \<in> pip_install w ` set deps \<and> e = environ ?s2 \<and>
           (fst (proc w c e t) \<noteq> 0 \<longrightarrow>
              r = Inl (CalledProcessError (fst (proc w c e t)) c) \<and> last (trace s') = Call c e t)"
      by blast
    have A: "calls_of (trace s') = calls_of (trace s) @ ((?c, environ s, disk s) # cs)"
      using ih(4) s2(3) by simp
    have B: "\<forall>(c, e, t) \<in> set ((?c, environ s, disk s) # cs).
        c \<in> pip_install w ` set (dep # deps) \<and> e = environ s \<and>
        (fst (proc w c e t) \<noteq> 0 \<longrightarrow>
              r = Inl (CalledProcessError (fst (proc w c e t)) c) \<and> last (trace s') = Call c e t)"
      using ih(5) True s2(1) by auto
    show ?thesis
    proof (intro conjI exI)
      show "environ s' = environ s" using ih(1) s2(1) by simp
      show "copies_of (trace s') = copies_of (trace s)" using ih(2) s2(2) by simp
      show "r = Inr () \<or> (\<exists>rc c. r = Inl (CalledProcessError rc c))" by (rule ih(3))
      show "calls_of (trace s') = calls_of (trace s) @ ((?c, environ s, disk s) # cs)" by (rule A)
      show "\<forall>(c, e, t) \<in> set ((?c, environ s, disk s) # cs).
        c \<in> pip_install w ` set (dep # deps) \<and> e = environ s \<and>
        (fst (proc w c e t) \<noteq> 0 \<longrightarrow>
              r = Inl (CalledProcessError (fst (proc w c e t)) c) \<and> last (trace s') = Call c e t)"
        by (rule B)
    qed
  qed
qed

lemma install_build_dependencies_inv:
  assumes "install_build_dependencies w s = (r, s')"
  shows "environ s' = environ s" "copies_of (trace s') = copies_of (trace s)"
    "r = Inr () \<or> (\<exists>rc c. r = Inl (CalledProcessError rc c))"
    "\<exists>cs. calls_of (trace s') = calls_of (trace s) @ cs \<and>
        (\<forall>(c, e, t) \<in> set cs. c \<in> pip_install w ` set dependencies \<and> e = environ s \<and>
           (fst (proc w c e t) \<noteq> 0 \<longrightarrow>
              r = Inl (CalledProcessError (fst (proc w c e t)) c) \<and> last (trace s') = Call c e t))"
proof -
  let ?s3 = "print rule60 (print ''Installing Build Dependencies'' (print rule60 s))"
  obtain r4 s4 where e: "install_each w dependencies ?s3 = (r4, s4)"
    by (cases "install_each w dependencies ?s3")
  have rs: "r = r4" "calls_of (trace s') = calls_of (trace s4)" "environ s' = environ s4"
     "copies_of (trace s') = copies_of (trace s4)" "r4 = Inr () \<or> s' = s4"
    using assms e by (auto simp: install_build_dependencies_def Let_def split: sum.splits)
  from install_each_inv [OF e] obtain cs where
    i: "environ s4 = environ ?s3" "copies_of (trace s4) = copies_of (trace ?s3)"
      "r4 = Inr () \<or> (\<exists>rc c. r4 = Inl (CalledProcessError rc c))"
      "calls_of (trace s4) = calls_of (trace ?s3) @ cs"
      "\<forall>(c, e, t) \<in> set cs. c \<in> pip_install w ` set dependencies \<and> e = environ ?s3 \<and>
           (fst (proc w c e t) \<noteq> 0 \<longrightarrow>
              r4 = Inl (CalledProcessError (fst (proc w c e t)) c) \<and> last (trace s4) = Call c e t)"
    by blast
  have l: "\<forall>(c, e, t) \<in> set cs. c \<in> pip_install w ` set dependencies \<and> e = environ s \<and>
           (fst (proc w c e t) \<noteq> 0 \<longrightarrow>
              r = Inl (CalledProcessError (fst (proc w c e t)) c) \<and> last (trace s') = Call c e t)"
    using i(5) rs(1,5) by auto
  have c: "calls_of (trace s') = calls_of (trace s) @ cs"
    using i(4) rs(2) by simp
  show "environ s' = environ s" "copies_of (trace s') = copies_of (trace s)"
    "r = Inr () \<or> (\<exists>rc c. r = Inl (CalledProcessError rc c))"
    using i(1,2,3) rs by simp_all
  show "\<exists>cs. calls_of (trace s') = calls_of (trace s) @ cs \<and>
        (\<forall>(c, e, t) \<in> set cs. c \<in> pip_install w ` set dependencies \<and> e = environ s \<and>
           (fst (proc w c e t) \<noteq> 0 \<longrightarrow>
              r = Inl (CalledProcessError (fst (proc w c e t)) c) \<and> last (trace s') = Call c e t))"
    using c l by blast
qed

lemma pip_install_not_build: "pip_install w dep \<noteq> build_cmd w"
  by (simp add: pip_install_def build_cmd_def)

lemma install_each_noop:
  assumes "\<forall>dep \<in> set deps. \<forall>e t. proc w (pip_install w dep) e t = (0, t)"
  shows "fst (install_each w deps s) = Inr () \<and> disk (snd (install_each w deps s)) = disk s
         \<and> environ (snd (install_each w deps s)) = environ s"
  using assms
  by (induction deps arbitrary: s) (simp_all add: check_call_def Let_def)

lemma install_noop:
  assumes "\<forall>dep \<in> set dependencies. \<forall>e t. proc w (pip_install w dep) e t = (0, t)"
  shows "fst (install_build_dependencies w s) = Inr ()"
    and "disk (snd (install_build_dependencies w s)) = disk s"
    and "environ (snd (install_build_dependencies w s)) = environ s"
proof -
  let ?s3 = "print rule60 (print ''Installing Build Dependencies'' (print rule60 s))"
  from install_each_noop [OF assms, of ?s3]
  show "fst (install_build_dependencies w s) = Inr ()"
    and "disk (snd (install_build_dependencies w s)) = disk s"
    and "environ (snd (install_build_dependencies w s)) = environ s"
    by (cases "install_each w dependencies ?s3"; simp add: install_build_dependencies_def Let_def)+
qed

subsection \<open>Creating the output directory\<close>

lemma makedirs_keeps_dirs:
  "makedirs whole b cur xs t = (r, t') \<Longrightarrow> is_dir t q \<Longrightarrow> is_dir t' q"
proof (induction xs arbitrary: b cur t)
  case Nil
  then show ?case by (simp split: if_splits)
next
  case (Cons x xs)
  show ?case
  proof (cases "x = ''..''")
    case True
    with Cons.prems Cons.IH [of b "butlast cur" t] show ?thesis by simp
  next
    case False
    show ?thesis
    proof (cases "stat t (cur @ [x])")
      case None
      show ?thesis
      proof (cases "is_dir t cur")
        case True
        with None False Cons.prems(1)
        have m: "makedirs whole True (cur @ [x]) xs (fs_put (cur @ [x]) Directory t) = (r, t')"
          by (simp add: Let_def)
        have "is_dir (fs_put (cur @ [x]) Directory t) q"
          using Cons.prems(2) by (simp add: is_dir_def stat_fs_put)
        with Cons.IH [OF m] show ?thesis .
      next
        case no: False
        with None False Cons.prems show ?thesis by (simp add: Let_def)
      qed
    next
      case (Some e)
      with False Cons.prems Cons.IH [of b "cur @ [x]" t] show ?thesis
        by (cases e) (auto simp: Let_def)
    qed
  qed
qed

lemma makedirs_is_dir:
  "makedirs whole b cur xs t = (Inr (), t') \<Longrightarrow>
   is_dir t' (norm cur xs) \<and> (\<forall>q \<in> set (entered cur xs). is_dir t' q)"
proof (induction xs arbitrary: b cur t)
  case Nil
  then show ?case by (simp split: if_splits)
next
  case (Cons x xs)
  show ?case
  proof (cases "x = ''..''")
    case True
    with Cons.prems Cons.IH [of b "butlast cur" t] show ?thesis by simp
  next
    case False
    show ?thesis
    proof (cases "stat t (cur @ [x])")
      case None
      with False Cons.prems
      have m: "makedirs whole True (cur @ [x]) xs (fs_put (cur @ [x]) Directory t) = (Inr (), t')"
        by (simp add: Let_def split: if_splits)
      have "is_dir (fs_put (cur @ [x]) Directory t) (cur @ [x])"
        by (simp add: is_dir_def stat_fs_put)
      then have "is_dir t' (cur @ [x])" by (rule makedirs_keeps_dirs [OF m])
      with Cons.IH [OF m] False show ?thesis by simp
    next
      case (Some e)
      with False Cons.prems have e: "e = Directory"
        and m: "makedirs whole b (cur @ [x]) xs t = (Inr (), t')"
        by (cases e; simp add: Let_def)+
      from Some e have "is_dir t (cur @ [x])" by (simp add: is_dir_def)
      then have "is_dir t' (cur @ [x])" by (rule makedirs_keeps_dirs [OF m])
      with Cons.IH [OF m] False show ?thesis by simp
    qed
  qed
qed

lemma mkdir_inv:
  assumes "mkdir w p s = (r, s')"
  shows "environ s' = environ s" "calls_of (trace s') = calls_of (trace s)"
    "copies_of (trace s') = copies_of (trace s)"
    "r = Inr () \<Longrightarrow> made w p (disk s')"
proof -
  obtain r1 t1 where m: "makedirs (resolve w p) False (start w p) (parts p) (disk s) = (r1, t1)"
    by (cases "makedirs (resolve w p) False (start w p) (parts p) (disk s)")
  with assms have s': "s' = s\<lparr>disk := t1, trace := trace s @ [Mkdir (resolve w p)]\<rparr>" and r: "r = r1"
    by (auto simp: mkdir_def)
  show "environ s' = environ s" "calls_of (trace s') = calls_of (trace s)"
    "copies_of (trace s') = copies_of (trace s)"
    by (simp_all add: s')
  show "made w p (disk s')" if "r = Inr ()"
    using makedirs_is_dir [of "resolve w p" False "start w p" "parts p" "disk s" t1] m that r
    by (simp add: s' made_def resolve_def)
qed

lemma mkdir_simps:
  "fst (mkdir w p s) = fst (makedirs (resolve w p) False (start w p) (parts p) (disk s))"
  "disk (snd (mkdir w p s)) = snd (makedirs (resolve w p) False (start w p) (parts p) (disk s))"
  "environ (snd (mkdir w p s)) = environ s"
  by (simp_all add: mkdir_def split: prod.splits)

lemma pre_mkdir_simps:
  assumes "\<forall>dep \<in> set dependencies. \<forall>e t. proc w (pip_install w dep) e t = (0, t)"
  shows "disk (pre_mkdir w s) = disk s" "environ (pre_mkdir w s) = environ s"
  by (simp_all add: pre_mkdir_def install_noop [OF assms] check_colab_environment_frame banner_def)

subsection \<open>The cleanup\<close>

text \<open>
  The cleanup only removes: what is gone stays gone, every name that a pattern matches is
  gone afterwards, and a path that lies below no matching name is left as it was.
\<close>

lemma remove_each_frame:
  "environ (remove_each w ns s) = environ s"
  "calls_of (trace (remove_each w ns s)) = calls_of (trace s)"
  "copies_of (trace (remove_each w ns s)) = copies_of (trace s)"
  by (induction ns arbitrary: s; simp add: Let_def rmtree_def unlink_def)+

lemma remove_each_stat:
  "stat (disk (remove_each w ns s)) p = None \<or> stat (disk (remove_each w ns s)) p = stat (disk s) p"
proof (induction ns arbitrary: s)
  case Nil
  then show ?case by simp
next
  case (Cons n ns)
  let ?s1 = "if is_dir (disk s) (cwd w @ [n]) then print (''  Removed '' @ n) (rmtree (cwd w @ [n]) s)
            else if is_file (disk s) (cwd w @ [n]) then print (''  Removed '' @ n) (unlink (cwd w @ [n]) s)
            else s"
  have "stat (disk ?s1) p = None \<or> stat (disk ?s1) p = stat (disk s) p"
    by (simp add: rmtree_def unlink_def stat_fs_rmtree stat_fs_unlink)
  with Cons.IH [of ?s1] show ?case
    by (auto simp: Let_def)
qed

lemma gone_stat: "stat t' p = None \<or> stat t' p = stat t p \<Longrightarrow> gone t p \<Longrightarrow> gone t' p"
  by (auto simp: gone_def is_dir_def is_file_def)

lemma remove_each_gone:
  "n \<in> set ns \<Longrightarrow> gone (disk (remove_each w ns s)) (cwd w @ [n])"
proof (induction ns arbitrary: s)
  case Nil
  then show ?case by simp
next
  case (Cons m ns)
  let ?s1 = "if is_dir (disk s) (cwd w @ [m]) then print (''  Removed '' @ m) (rmtree (cwd w @ [m]) s)
            else if is_file (disk s) (cwd w @ [m]) then print (''  Removed '' @ m) (unlink (cwd w @ [m]) s)
            else s"
  have step: "remove_each w (m # ns) s = remove_each w ns ?s1"
    by (simp add: Let_def)
  show ?case
  proof (cases "n = m")
    case True
    have "gone (disk ?s1) (cwd w @ [m])"
      by (simp add: gone_def rmtree_def unlink_def is_dir_def is_file_def stat_fs_rmtree stat_fs_unlink)
    then show ?thesis
      unfolding step True using gone_stat [OF remove_each_stat] by blast
  next
    case False
    with Cons.prems have "n \<in> set ns" by simp
    then show ?thesis unfolding step by (rule Cons.IH)
  qed
qed

lemma remove_each_trace: "set (trace s) \<subseteq> set (trace (remove_each w ns s))"
proof (induction ns arbitrary: s)
  case Nil
  then show ?case by simp
next
  case (Cons n ns)
  let ?s1 = "if is_dir (disk s) (cwd w @ [n]) then print (''  Removed '' @ n) (rmtree (cwd w @ [n]) s)
            else if is_file (disk s) (cwd w @ [n]) then print (''  Removed '' @ n) (unlink (cwd w @ [n]) s)
            else s"
  have "set (trace s) \<subseteq> set (trace ?s1)"
    by (auto simp: rmtree_def unlink_def)
  with Cons.IH [of ?s1] show ?case by (auto simp: Let_def)
qed

lemma remove_each_keeps:
  "\<forall>n \<in> set ns. \<not> prefix (cwd w @ [n]) p \<Longrightarrow> stat (disk (remove_each w ns s)) p = stat (disk s) p"
proof (induction ns arbitrary: s)
  case Nil
  then show ?case by simp
next
  case (Cons n ns)
  let ?s1 = "if is_dir (disk s) (cwd w @ [n]) then print (''  Removed '' @ n) (rmtree (cwd w @ [n]) s)
            else if is_file (disk s) (cwd w @ [n]) then print (''  Removed '' @ n) (unlink (cwd w @ [n]) s)
            else s"
  from Cons.prems have np: "\<not> prefix (cwd w @ [n]) p" by simp
  then have "p \<noteq> cwd w @ [n]" by auto
  with np have "stat (disk ?s1) p = stat (disk s) p"
    by (simp add: rmtree_def unlink_def stat_fs_rmtree stat_fs_unlink)
  moreover have "stat (disk (remove_each w ns ?s1)) p = stat (disk ?s1) p"
    using Cons.prems by (intro Cons.IH) simp
  ultimately show ?case by (simp add: Let_def)
qed

lemma clean_previous_builds_frame:
  "environ (clean_previous_builds w pats s) = environ s"
  "calls_of (trace (clean_previous_builds w pats s)) = calls_of (trace s)"
  "copies_of (trace (clean_previous_builds w pats s)) = copies_of (trace s)"
  by (induction pats arbitrary: s; simp add: remove_each_frame)+

lemma clean_previous_builds_stat:
  "stat (disk (clean_previous_builds w pats s)) p = None
   \<or> stat (disk (clean_previous_builds w pats s)) p = stat (disk s) p"
proof (induction pats arbitrary: s)
  case Nil
  then show ?case by simp
next
  case (Cons pat pats)
  from Cons.IH [of "remove_each w (glob (disk s) (cwd w) pat) s"]
    remove_each_stat [of w "glob (disk s) (cwd w) pat" s p]
  show ?case by auto
qed

lemma clean_previous_builds_gone:
  "pat \<in> set pats \<Longrightarrow> fnmatch pat n \<Longrightarrow> gone (disk (clean_previous_builds w pats s)) (cwd w @ [n])"
proof (induction pats arbitrary: s)
  case Nil
  then show ?case by simp
next
  case (Cons q pats)
  let ?s1 = "remove_each w (glob (disk s) (cwd w) q) s"
  show ?case
  proof (cases "pat = q")
    case True
    have "gone (disk ?s1) (cwd w @ [n])"
    proof (cases "n \<in> set (glob (disk s) (cwd w) q)")
      case True
      then show ?thesis by (rule remove_each_gone)
    next
      case False
      with Cons.prems \<open>pat = q\<close> have "map_of (disk s) (cwd w @ [n]) = None"
        by (simp add: glob_def in_listdir)
      then have "gone (disk s) (cwd w @ [n])"
        by (simp add: gone_def is_dir_def is_file_def stat_def)
      then show ?thesis using gone_stat [OF remove_each_stat] by blast
    qed
    then show ?thesis
      using gone_stat [OF clean_previous_builds_stat] by simp
  next
    case False
    with Cons.prems have "pat \<in> set pats" by simp
    then show ?thesis using Cons.IH Cons.prems(2) by simp
  qed
qed

lemma stale_gone:
  "stale_name n \<Longrightarrow> gone (disk (clean_previous_builds w stale_patterns s)) (cwd w @ [n])"
  by (auto simp: stale_name_def list_ex_iff intro: clean_previous_builds_gone)

lemma clean_previous_builds_trace: "set (trace s) \<subseteq> set (trace (clean_previous_builds w pats s))"
proof (induction pats arbitrary: s)
  case Nil
  then show ?case by simp
next
  case (Cons pat pats)
  from Cons.IH [of "remove_each w (glob (disk s) (cwd w) pat) s"]
    remove_each_trace [of s w "glob (disk s) (cwd w) pat"]
  show ?case by auto
qed

lemma clean_previous_builds_keeps:
  "\<forall>n. (\<exists>pat \<in> set pats. fnmatch pat n) \<longrightarrow> \<not> prefix (cwd w @ [n]) p \<Longrightarrow>
   stat (disk (clean_previous_builds w pats s)) p = stat (disk s) p"
proof (induction pats arbitrary: s)
  case Nil
  then show ?case by simp
next
  case (Cons pat pats)
  let ?s1 = "remove_each w (glob (disk s) (cwd w) pat) s"
  have "\<forall>n \<in> set (glob (disk s) (cwd w) pat). \<not> prefix (cwd w @ [n]) p"
    using Cons.prems by (auto simp: glob_def)
  then have "stat (disk ?s1) p = stat (disk s) p" by (rule remove_each_keeps)
  moreover have "stat (disk (clean_previous_builds w pats ?s1)) p = stat (disk ?s1) p"
    using Cons.prems by (intro Cons.IH) auto
  ultimately show ?case by simp
qed

lemma clean_previous_builds_noop:
  "\<forall>pat \<in> set pats. glob (disk s) (cwd w) pat = [] \<Longrightarrow> clean_previous_builds w pats s = s"
  by (induction pats) simp_all

lemma build_entry_frame:
  "environ (build_entry w out s) = environ s"
  "calls_of (trace (build_entry w out s)) = calls_of (trace s)"
  "copies_of (trace (build_entry w out s)) = copies_of (trace s)"
  by (simp_all add: build_entry_def clean_previous_builds_frame)

lemma build_entry_trace: "set (trace s) \<subseteq> set (trace (build_entry w out s))"
proof -
  let ?s6 = "print ''Cleaning previous builds...''
               (print (''Output directory: '' @ str_path (absolute w out)) s)"
  have "set (trace s) \<subseteq> set (trace ?s6)" by auto
  also have "\<dots> \<subseteq> set (trace (clean_previous_builds w stale_patterns ?s6))"
    by (rule clean_previous_builds_trace)
  also have "\<dots> \<subseteq> set (trace (build_entry w out s))"
    by (auto simp: build_entry_def)
  finally show ?thesis .
qed

lemma build_entry_keeps:
  "\<forall>n. stale_name n \<longrightarrow> \<not> prefix (cwd w @ [n]) p \<Longrightarrow>
   stat (disk (build_entry w out s)) p = stat (disk s) p"
  using clean_previous_builds_keeps [of stale_patterns w p]
  by (simp add: build_entry_def stale_name_def list_ex_iff)

lemma build_entry_gone:
  "stale_name n \<Longrightarrow> gone (disk (build_entry w out s)) (cwd w @ [n])"
  by (simp add: build_entry_def stale_gone)

subsection \<open>The build and the copy\<close>

lemma copy2_frame:
  "environ (snd (copy2 w a b s)) = environ s"
  "calls_of (trace (snd (copy2 w a b s))) = calls_of (trace s)"
  by (simp_all add: copy2_def copy_to_def Let_def split: option.splits entry.splits sum.splits)

lemma copy_each_frame:
  "environ (snd (copy_each w out ns s)) = environ s \<and>
   calls_of (trace (snd (copy_each w out ns s))) = calls_of (trace s)"
proof (induction ns arbitrary: s)
  case Nil
  then show ?case by simp
next
  case (Cons n ns)
  let ?c = "copy2 w (joinpath (Path ''dist'') n) (joinpath out n) s"
  obtain r1 s1 where c: "?c = (r1, s1)" by (cases ?c)
  have f: "environ s1 = environ s" "calls_of (trace s1) = calls_of (trace s)"
    using copy2_frame [of w "joinpath (Path ''dist'') n" "joinpath out n" s] c by simp_all
  show ?case
    using c f Cons.IH
    by (simp add: Let_def split: sum.splits)
qed

lemma build_wheel_try_frame:
  "environ (snd (build_wheel_try w out s)) = environ s"
  "calls_of (trace (snd (build_wheel_try w out s)))
     = calls_of (trace s) @ [(build_cmd w, build_env s, disk s)]"
proof -
  let ?k = "check_call w (build_cmd w) (build_env s) s"
  obtain r1 s1 where k: "?k = (r1, s1)" by (cases ?k)
  have f: "environ s1 = environ s"
    "calls_of (trace s1) = calls_of (trace s) @ [(build_cmd w, build_env s, disk s)]"
    using check_call_simps(3,4) [of w "build_cmd w" "build_env s" s] k by simp_all
  let ?ws = "glob (disk s1) (resolve w (Path ''dist'')) ''*.whl''"
  obtain r2 s2 where c: "copy_each w out ?ws s1 = (r2, s2)" by (cases "copy_each w out ?ws s1")
  have g: "environ s2 = environ s1" "calls_of (trace s2) = calls_of (trace s1)"
    using copy_each_frame [of w out ?ws s1] c by simp_all
  have "environ (snd (build_wheel_try w out s)) = environ s \<and>
        calls_of (trace (snd (build_wheel_try w out s)))
          = calls_of (trace s) @ [(build_cmd w, build_env s, disk s)]"
  proof (cases r1)
    case (Inl e)
    then show ?thesis using k f
      by (simp add: build_wheel_try_def build_env_def Let_def)
  next
    case (Inr u)
    show ?thesis
    proof (cases ?ws)
      case Nil
      then show ?thesis using k f Inr
        by (simp add: build_wheel_try_def build_env_def Let_def)
    next
      case (Cons n ns)
      then show ?thesis using k f Inr c g
        by (simp add: build_wheel_try_def build_env_def Let_def del: copy_each.simps
              split: sum.splits)
    qed
  qed
  then show "environ (snd (build_wheel_try w out s)) = environ s"
    "calls_of (trace (snd (build_wheel_try w out s)))
     = calls_of (trace s) @ [(build_cmd w, build_env s, disk s)]"
    by simp_all
qed

lemma except_frame:
  "environ (snd (except_CalledProcessError x)) = environ (snd x)"
  "calls_of (trace (snd (except_CalledProcessError x))) = calls_of (trace (snd x))"
  by (induction x rule: except_CalledProcessError.induct) simp_all

lemma finish_frame:
  "environ (snd (finish w out x)) = environ (snd x)"
  "calls_of (trace (snd (finish w out x))) = calls_of (trace (snd x))"
  by (simp_all add: finish_def completion_report_def Let_def split: prod.splits sum.splits)

lemma finish_Inl [simp]: "finish w out (Inl e, s) = (Inl e, s)"
  by (simp add: finish_def)

lemma finish_Inr: "fst x = Inr n \<Longrightarrow> fst (finish w out x) = Inr () \<and> disk (snd (finish w out x)) = disk (snd x)"
  by (cases x) (simp add: finish_def completion_report_def Let_def)

lemma build_wheel_run:
  "build_wheel w out s =
     (case mkdir w (Path out) (print rule60 (print ''Building Wheel'' (print rule60 s))) of
        (Inl e, s4) \<Rightarrow> (Inl e, s4)
      | (Inr u, s4) \<Rightarrow>
          except_CalledProcessError (build_wheel_try w (Path out) (build_entry w (Path out) s4)))"
  by (simp add: build_wheel_def build_entry_def Let_def split: prod.splits sum.splits)

lemma try_failed:
  assumes "fst (proc w (build_cmd w) (build_env s) (disk s)) \<noteq> 0"
  shows "except_CalledProcessError (build_wheel_try w out s) =
           (Inl (SystemExit 1),
            print (cross_mark @ '' Build failed with exit code ''
                   @ str_int (fst (proc w (build_cmd w) (build_env s) (disk s))))
              (s\<lparr>disk := snd (proc w (build_cmd w) (build_env s) (disk s)),
                 trace := trace s @ [Call (build_cmd w) (build_env s) (disk s)]\<rparr>))"
proof -
  obtain rc t' where p: "proc w (build_cmd w) (build_env s) (disk s) = (rc, t')"
    by (cases "proc w (build_cmd w) (build_env s) (disk s)")
  with assms have "rc \<noteq> 0" by simp
  with p show ?thesis
    by (simp add: build_wheel_try_def check_call_def Let_def build_env_def [symmetric])
qed

lemma try_no_wheel:
  assumes "proc w (build_cmd w) (build_env s) (disk s) = (0, t')"
    and "glob t' (cwd w @ [''dist'']) ''*.whl'' = []"
  shows "except_CalledProcessError (build_wheel_try w out s) =
           (Inl (SystemExit 1),
            print (cross_mark @ '' No wheel file found in dist/'')
              (s\<lparr>disk := t', trace := trace s @ [Call (build_cmd w) (build_env s) (disk s)]\<rparr>))"
  using assms
  by (simp add: build_wheel_try_def check_call_def Let_def build_env_def [symmetric])

lemma locate_wheel:
  assumes "is_dir t (cwd w @ [''dist''])" and "n \<noteq> ''..''"
  shows "locate w t (joinpath (Path ''dist'') n) = Inr (cwd w @ [''dist'', n])"
proof -
  have "\<forall>q \<in> set (entered (start w (Path ''dist'')) (parts (Path ''dist''))). is_dir t q"
    using assms(1) by (simp add: start_def anchored_def path_eval)
  from locate_joinpath [OF this assms(2)] show ?thesis by simp
qed

lemma resolve_wheel:
  "n \<noteq> ''..'' \<Longrightarrow> resolve w (joinpath (Path ''dist'') n) = cwd w @ [''dist'', n]"
  by (simp add: resolve_joinpath)

lemma copy_each_one:
  assumes d: "is_dir (disk s) (cwd w @ [''dist''])"
    and n: "n \<noteq> ''..''"
    and f: "stat (disk s) (cwd w @ [''dist'', n]) = Some (RegularFile content)"
    and m: "made w out (disk s)"
    and ne: "resolve w out \<noteq> cwd w @ [''dist'']"
    and free: "stat (disk s) (resolve w out @ [n]) = None
               \<or> (\<exists>c. stat (disk s) (resolve w out @ [n]) = Some (RegularFile c))"
  shows "fst (copy_each w out [n] s) = Inr ()"
    and "disk (snd (copy_each w out [n] s))
           = fs_put (resolve w out @ [n]) (RegularFile content) (disk s)"
proof -
  let ?a = "cwd w @ [''dist'', n]"
  let ?b = "resolve w out @ [n]"
  let ?t = "fs_put ?b (RegularFile content) (disk s)"
  let ?s1 = "s\<lparr>trace := trace s @ [Copy2 (resolve w (joinpath (Path ''dist'') n))
                                            (resolve w (joinpath out n))]\<rparr>"
  have la: "locate w (disk s) (joinpath (Path ''dist'') n) = Inr ?a"
    using d n by (rule locate_wheel)
  have e: "\<forall>q \<in> set (entered (start w out) (parts out)). is_dir (disk s) q"
    and o: "is_dir (disk s) (resolve w out)"
    using m by (simp_all add: made_def)
  have lb: "locate w (disk s) (joinpath out n) = Inr ?b"
    using e n by (rule locate_joinpath)
  have nd: "\<not> is_dir (disk s) ?b"
    using free by (auto simp: is_dir_def)
  have ab: "?a \<noteq> ?b"
  proof
    assume "?a = ?b"
    then have "(cwd w @ [''dist'']) @ [n] = resolve w out @ [n]" by simp
    then have "cwd w @ [''dist''] = resolve w out" by (simp only: append_same_eq)
    with ne show False by simp
  qed
  have ct: "copy_to n ?a ?b ?s1 = (Inr (), ?s1\<lparr>disk := ?t\<rparr>)"
    using free nd ab f o
    by (auto simp: copy_to_def Let_def split: option.splits entry.splits)
  have c2: "copy2 w (joinpath (Path ''dist'') n) (joinpath out n) s = (Inr (), ?s1\<lparr>disk := ?t\<rparr>)"
    using la lb ct by (simp add: copy2_def Let_def)
  have e': "\<forall>q \<in> set (entered (start w out) (parts out)). is_dir ?t q"
  proof
    fix q assume q: "q \<in> set (entered (start w out) (parts out))"
    with e have dq: "is_dir (disk s) q" by simp
    with nd have "q \<noteq> ?b" by auto
    with dq show "is_dir ?t q" by (simp add: is_dir_def stat_fs_put)
  qed
  have lb': "locate w ?t (joinpath out n) = Inr ?b"
    using e' n by (rule locate_joinpath)
  have sz: "st_size w ?t (joinpath out n) = Inr (length content)"
    using lb' by (simp add: st_size_def stat_fs_put)
  show "fst (copy_each w out [n] s) = Inr ()"
    and "disk (snd (copy_each w out [n] s)) = ?t"
    using c2 sz by (simp_all add: Let_def)
qed

lemma try_one_wheel:
  assumes "proc w (build_cmd w) (build_env s) (disk s) = (0, t')"
    and "glob t' (cwd w @ [''dist'']) ''*.whl'' = [n]"
    and "is_dir t' (cwd w @ [''dist''])"
    and "stat t' (cwd w @ [''dist'', n]) = Some (RegularFile content)"
    and "made w out t'"
    and "resolve w out \<noteq> cwd w @ [''dist'']"
    and "stat t' (resolve w out @ [n]) = None
         \<or> (\<exists>c. stat t' (resolve w out @ [n]) = Some (RegularFile c))"
  shows "fst (except_CalledProcessError (build_wheel_try w out s)) = Inr n"
    and "disk (snd (except_CalledProcessError (build_wheel_try w out s)))
           = fs_put (resolve w out @ [n]) (RegularFile content) t'"
proof -
  let ?s1 = "s\<lparr>disk := t', trace := trace s @ [Call (build_cmd w) (build_env s) (disk s)]\<rparr>"
  have "n \<in> set (glob t' (cwd w @ [''dist'']) ''*.whl'')" using assms(2) by simp
  then have n: "n \<noteq> ''..''" by (auto simp: glob_def dest: whl_not_dotdot)
  have c: "fst (copy_each w out [n] ?s1) = Inr ()"
    "disk (snd (copy_each w out [n] ?s1)) = fs_put (resolve w out @ [n]) (RegularFile content) t'"
    using copy_each_one [of ?s1 w n content out] assms(3-7) n by simp_all
  obtain r2 s2 where r: "copy_each w out [n] ?s1 = (r2, s2)" by (cases "copy_each w out [n] ?s1")
  with c have r2: "r2 = Inr ()" "disk s2 = fs_put (resolve w out @ [n]) (RegularFile content) t'"
    by simp_all
  have "build_wheel_try w out s = (Inr n, s2)"
    using assms(1,2) r r2(1)
    by (simp add: build_wheel_try_def check_call_def Let_def build_env_def [symmetric]
          del: copy_each.simps)
  then show "fst (except_CalledProcessError (build_wheel_try w out s)) = Inr n"
    and "disk (snd (except_CalledProcessError (build_wheel_try w out s)))
           = fs_put (resolve w out @ [n]) (RegularFile content) t'"
    using r2(2) by simp_all
qed

lemma try_output_missing:
  assumes "proc w (build_cmd w) (build_env s) (disk s) = (0, t')"
    and "glob t' (cwd w @ [''dist'']) ''*.whl'' = n # ns"
    and "is_dir t' (cwd w @ [''dist''])"
    and "stat t' (cwd w @ [''dist'', n]) = Some (RegularFile content)"
    and "locate w t' (joinpath out n) = Inl (FileNotFoundError q)"
  shows "fst (except_CalledProcessError (build_wheel_try w out s)) = Inl (FileNotFoundError q)"
    and "disk (snd (except_CalledProcessError (build_wheel_try w out s))) = t'"
    and "Copy2 (cwd w @ [''dist'', n]) (resolve w out @ [n])
           \<in> set (trace (snd (except_CalledProcessError (build_wheel_try w out s))))"
proof -
  have "n \<in> set (glob t' (cwd w @ [''dist'']) ''*.whl'')" using assms(2) by simp
  then have n: "n \<noteq> ''..''" by (auto simp: glob_def dest: whl_not_dotdot)
  have la: "locate w t' (joinpath (Path ''dist'') n) = Inr (cwd w @ [''dist'', n])"
    using assms(3) n by (rule locate_wheel)
  show "fst (except_CalledProcessError (build_wheel_try w out s)) = Inl (FileNotFoundError q)"
    and "disk (snd (except_CalledProcessError (build_wheel_try w out s))) = t'"
    and "Copy2 (cwd w @ [''dist'', n]) (resolve w out @ [n])
           \<in> set (trace (snd (except_CalledProcessError (build_wheel_try w out s))))"
    using assms(1,2,4,5) la n
    by (simp_all add: build_wheel_try_def check_call_def Let_def copy2_def resolve_joinpath
          build_env_def [symmetric])
qed

lemma try_same_file:
  assumes "proc w (build_cmd w) (build_env s) (disk s) = (0, t')"
    and "glob t' (cwd w @ [''dist'']) ''*.whl'' = n # ns"
    and "is_dir t' (cwd w @ [''dist''])"
    and "stat t' (cwd w @ [''dist'', n]) = Some (RegularFile content)"
    and "locate w t' (joinpath out n) = Inr (cwd w @ [''dist'', n])"
  shows "fst (except_CalledProcessError (build_wheel_try w out s))
           = Inl (SameFileError (cwd w @ [''dist'', n]) (cwd w @ [''dist'', n]))"
    and "disk (snd (except_CalledProcessError (build_wheel_try w out s))) = t'"
proof -
  have "n \<in> set (glob t' (cwd w @ [''dist'']) ''*.whl'')" using assms(2) by simp
  then have n: "n \<noteq> ''..''" by (auto simp: glob_def dest: whl_not_dotdot)
  have la: "locate w t' (joinpath (Path ''dist'') n) = Inr (cwd w @ [''dist'', n])"
    using assms(3) n by (rule locate_wheel)
  show "fst (except_CalledProcessError (build_wheel_try w out s))
           = Inl (SameFileError (cwd w @ [''dist'', n]) (cwd w @ [''dist'', n]))"
    and "disk (snd (except_CalledProcessError (build_wheel_try w out s))) = t'"
    using assms(1,2,4,5) la n
    by (simp_all add: build_wheel_try_def check_call_def Let_def copy2_def copy_to_def is_dir_def
          build_env_def [symmetric])
qed

subsection \<open>Every run of \<^verbatim>\<open>main\<close>\<close>

text \<open>
  A run either ends before the build, with an exception, after installer invocations only
  and without a copy; or it enters the \<^verbatim>\<open>try\<close> of \<^verbatim>\<open>build_wheel\<close> after installer
  invocations that all succeeded, and its result is that of the \<^verbatim>\<open>try\<close>. The build
  subprocess of a trace identifies the second case.
\<close>

lemma main_unfold:
  "\<not> length argv < 2 \<Longrightarrow>
   main w argv s =
     (case check_colab_environment w (banner s) of
        (Inl e, s4) \<Rightarrow> (Inl e, s4)
      | (Inr u, s4) \<Rightarrow>
          (case install_build_dependencies w s4 of
             (Inl e, s5) \<Rightarrow> (Inl e, s5)
           | (Inr u, s5) \<Rightarrow> finish w (argv ! 1) (build_wheel w (argv ! 1) s5)))"
  by (simp add: main_def banner_def finish_def Let_def split: prod.splits sum.splits)

lemma main_run:
  assumes t: "trace s = []"
  shows "(environ (snd (main w argv s)) = environ s \<and>
          copies_of (trace (snd (main w argv s))) = [] \<and>
          pip_calls w s (fst (main w argv s)) (trace (snd (main w argv s))) \<and>
          (\<exists>e. fst (main w argv s) = Inl e))
       \<or> (\<exists>s4 s8. 2 \<le> length argv \<and> made w (Path (argv ! 1)) (disk s4) \<and>
            s8 = build_entry w (Path (argv ! 1)) s4 \<and> environ s8 = environ s \<and>
            copies_of (trace s8) = [] \<and>
            Mkdir (resolve w (Path (argv ! 1))) \<in> set (trace s8) \<and>
            (\<forall>(c, e, t) \<in> set (calls_of (trace s8)).
               c \<in> pip_install w ` set dependencies \<and> e = environ s \<and> fst (proc w c e t) = 0) \<and>
            main w argv s =
              finish w (argv ! 1)
                (except_CalledProcessError (build_wheel_try w (Path (argv ! 1)) s8)))"
    (is "?A \<or> ?B")
proof (cases "length argv < 2")
  case True
  then have ?A using t by (simp add: main_def pip_calls_def)
  then show ?thesis ..
next
  case short: False
  note mu = main_unfold [OF short, of w s]
  let ?s3 = "banner s"
  have s3: "environ ?s3 = environ s" "calls_of (trace ?s3) = []" "copies_of (trace ?s3) = []"
    using t by (simp_all add: banner_def)
  obtain r4 s4 where c4: "check_colab_environment w ?s3 = (r4, s4)"
    by (cases "check_colab_environment w ?s3")
  have s4: "environ s4 = environ s" "calls_of (trace s4) = []" "copies_of (trace s4) = []"
    using check_colab_environment_frame(2,3,4) [of w ?s3] c4 s3 by simp_all
  show ?thesis
  proof (cases r4)
    case (Inl e)
    then have "main w argv s = (Inl e, s4)" using mu c4 by simp
    then have ?A using s4 by (simp add: pip_calls_def)
    then show ?thesis ..
  next
    case r4: (Inr u4)
    obtain r5 s5 where c5: "install_build_dependencies w s4 = (r5, s5)"
      by (cases "install_build_dependencies w s4")
    note inv = install_build_dependencies_inv [OF c5]
    from inv(4) obtain cs where
      cs: "calls_of (trace s5) = calls_of (trace s4) @ cs"
        "\<forall>(c, e, t) \<in> set cs. c \<in> pip_install w ` set dependencies \<and> e = environ s4 \<and>
           (fst (proc w c e t) \<noteq> 0 \<longrightarrow>
              r5 = Inl (CalledProcessError (fst (proc w c e t)) c) \<and> last (trace s5) = Call c e t)"
      by blast
    have s5: "environ s5 = environ s" "copies_of (trace s5) = []" "calls_of (trace s5) = cs"
      using inv(1,2) cs(1) s4 by simp_all
    show ?thesis
    proof (cases r5)
      case (Inl e)
      then have m: "main w argv s = (Inl e, s5)" using mu c4 r4 c5 by simp
      have "pip_calls w s (Inl e) (trace s5)"
        using cs(2) Inl s4(1) s5(3) by (simp add: pip_calls_def)
      then have ?A using m s5 by simp
      then show ?thesis ..
    next
      case r5: (Inr u5)
      have ok: "\<forall>(c, e, t) \<in> set cs.
               c \<in> pip_install w ` set dependencies \<and> e = environ s \<and> fst (proc w c e t) = 0"
        using cs(2) r5 s4(1) by auto
      have m: "main w argv s = finish w (argv ! 1) (build_wheel w (argv ! 1) s5)"
        using mu c4 r4 c5 r5 by simp
      let ?s5' = "print rule60 (print ''Building Wheel'' (print rule60 s5))"
      have s5': "environ ?s5' = environ s" "copies_of (trace ?s5') = []" "calls_of (trace ?s5') = cs"
        using s5 by simp_all
      obtain r6 s6 where c6: "mkdir w (Path (argv ! 1)) ?s5' = (r6, s6)"
        by (cases "mkdir w (Path (argv ! 1)) ?s5'")
      note mk = mkdir_inv [OF c6]
      have s6: "environ s6 = environ s" "copies_of (trace s6) = []" "calls_of (trace s6) = cs"
        using mk(1,2,3) s5' by simp_all
      have mk6: "Mkdir (resolve w (Path (argv ! 1))) \<in> set (trace s6)"
        using c6 by (auto simp: mkdir_def split: prod.splits)
      show ?thesis
      proof (cases r6)
        case (Inl e)
        then have "main w argv s = (Inl e, s6)"
          using m c6 by (simp add: build_wheel_run finish_def)
        moreover have "pip_calls w s (Inl e) (trace s6)"
          using ok s6(3) by (auto simp: pip_calls_def)
        ultimately have ?A using s6 by simp
        then show ?thesis ..
      next
        case (Inr u6)
        let ?s8 = "build_entry w (Path (argv ! 1)) s6"
        have "made w (Path (argv ! 1)) (disk s6)"
          using mk(4) Inr by simp
        moreover have "environ ?s8 = environ s" "copies_of (trace ?s8) = []"
          "calls_of (trace ?s8) = cs"
          using s6 by (simp_all add: build_entry_frame)
        moreover have "main w argv s =
              finish w (argv ! 1)
                (except_CalledProcessError (build_wheel_try w (Path (argv ! 1)) ?s8))"
          using m c6 Inr by (simp add: build_wheel_run)
        moreover have "2 \<le> length argv" using short by simp
        moreover have "Mkdir (resolve w (Path (argv ! 1))) \<in> set (trace ?s8)"
          using mk6 build_entry_trace [of s6 w "Path (argv ! 1)"] by blast
        ultimately have ?B using ok by auto
        then show ?thesis ..
      qed
    qed
  qed
qed

lemma main_build_call:
  assumes t: "trace s = []"
    and c: "Call (build_cmd w) env snap \<in> set (trace (snd (main w argv s)))"
  shows "\<exists>s4. 2 \<le> length argv \<and> made w (Path (argv ! 1)) (disk s4) \<and>
           environ (build_entry w (Path (argv ! 1)) s4) = environ s \<and>
           copies_of (trace (build_entry w (Path (argv ! 1)) s4)) = [] \<and>
           Mkdir (resolve w (Path (argv ! 1))) \<in> set (trace (build_entry w (Path (argv ! 1)) s4)) \<and>
           env = build_env (build_entry w (Path (argv ! 1)) s4) \<and>
           snap = disk (build_entry w (Path (argv ! 1)) s4) \<and>
           main w argv s =
             finish w (argv ! 1)
               (except_CalledProcessError
                  (build_wheel_try w (Path (argv ! 1)) (build_entry w (Path (argv ! 1)) s4)))"
proof -
  from c have m: "(build_cmd w, env, snap) \<in> set (calls_of (trace (snd (main w argv s))))"
    by (simp add: Call_in_trace)
  from main_run [OF t, of w argv] show ?thesis
  proof
    assume "environ (snd (main w argv s)) = environ s \<and>
          copies_of (trace (snd (main w argv s))) = [] \<and>
          pip_calls w s (fst (main w argv s)) (trace (snd (main w argv s))) \<and>
          (\<exists>e. fst (main w argv s) = Inl e)"
    then have "pip_calls w s (fst (main w argv s)) (trace (snd (main w argv s)))"
      by simp
    with m have "build_cmd w \<in> pip_install w ` set dependencies"
      by (auto simp: pip_calls_def)
    then obtain dep where "pip_install w dep = build_cmd w" by auto
    then show ?thesis by (simp add: pip_install_not_build)
  next
    assume "\<exists>s4 s8. 2 \<le> length argv \<and> made w (Path (argv ! 1)) (disk s4) \<and>
            s8 = build_entry w (Path (argv ! 1)) s4 \<and> environ s8 = environ s \<and>
            copies_of (trace s8) = [] \<and>
            Mkdir (resolve w (Path (argv ! 1))) \<in> set (trace s8) \<and>
            (\<forall>(c, e, t) \<in> set (calls_of (trace s8)).
               c \<in> pip_install w ` set dependencies \<and> e = environ s \<and> fst (proc w c e t) = 0) \<and>
            main w argv s =
              finish w (argv ! 1)
                (except_CalledProcessError (build_wheel_try w (Path (argv ! 1)) s8))"
    then obtain s4 where b: "2 \<le> length argv" "made w (Path (argv ! 1)) (disk s4)"
      "environ (build_entry w (Path (argv ! 1)) s4) = environ s"
      "copies_of (trace (build_entry w (Path (argv ! 1)) s4)) = []"
      "Mkdir (resolve w (Path (argv ! 1))) \<in> set (trace (build_entry w (Path (argv ! 1)) s4))"
      "\<forall>(c, e, t) \<in> set (calls_of (trace (build_entry w (Path (argv ! 1)) s4))).
               c \<in> pip_install w ` set dependencies \<and> e = environ s \<and> fst (proc w c e t) = 0"
      "main w argv s =
              finish w (argv ! 1)
                (except_CalledProcessError
                   (build_wheel_try w (Path (argv ! 1)) (build_entry w (Path (argv ! 1)) s4)))"
      by blast
    let ?s8 = "build_entry w (Path (argv ! 1)) s4"
    have "calls_of (trace (snd (main w argv s)))
            = calls_of (trace ?s8) @ [(build_cmd w, build_env ?s8, disk ?s8)]"
      by (simp add: b(7) finish_frame except_frame build_wheel_try_frame)
    with m have "(build_cmd w, env, snap) \<in> set (calls_of (trace ?s8))
                 \<or> (env = build_env ?s8 \<and> snap = disk ?s8)"
      by auto
    moreover have "(build_cmd w, env, snap) \<notin> set (calls_of (trace ?s8))"
    proof
      assume "(build_cmd w, env, snap) \<in> set (calls_of (trace ?s8))"
      with b(6) have "build_cmd w \<in> pip_install w ` set dependencies" by auto
      then obtain dep where "pip_install w dep = build_cmd w" by auto
      then show False by (simp add: pip_install_not_build)
    qed
    ultimately have "env = build_env ?s8" "snap = disk ?s8" by simp_all
    with b show ?thesis by blast
  qed
qed

lemma main_reaches_build:
  assumes "\<not> length argv < 2" and "torch w \<noteq> None"
    and "fst (install_build_dependencies w (snd (check_colab_environment w (banner s)))) = Inr ()"
    and "fst (mkdir w (Path (argv ! 1)) (pre_mkdir w s)) = Inr ()"
  shows "main w argv s =
           finish w (argv ! 1)
             (except_CalledProcessError
                (build_wheel_try w (Path (argv ! 1))
                   (build_entry w (Path (argv ! 1))
                      (snd (mkdir w (Path (argv ! 1)) (pre_mkdir w s))))))"
proof -
  let ?c = "check_colab_environment w (banner s)"
  let ?i = "install_build_dependencies w (snd ?c)"
  let ?m = "mkdir w (Path (argv ! 1)) (pre_mkdir w s)"
  have c: "?c = (Inr (), snd ?c)"
    using check_colab_environment_result [of w "banner s"] assms(2)
    by (cases ?c) simp
  have i: "?i = (Inr (), snd ?i)" using assms(3) by (cases ?i) simp
  have m: "?m = (Inr (), snd ?m)" using assms(4) by (cases ?m) simp
  have "main w argv s = finish w (argv ! 1) (build_wheel w (argv ! 1) (snd ?i))"
    unfolding main_unfold [OF assms(1)] by (subst c, simp, subst i, simp)
  also have "build_wheel w (argv ! 1) (snd ?i)
      = except_CalledProcessError
          (build_wheel_try w (Path (argv ! 1)) (build_entry w (Path (argv ! 1)) (snd ?m)))"
    unfolding build_wheel_run pre_mkdir_def [symmetric] by (subst m) simp
  finally show ?thesis .
qed

lemma build_call_in_trace:
  assumes "main w argv s = finish w out (except_CalledProcessError (build_wheel_try w p s8))"
  shows "Call (build_cmd w) (build_env s8) (disk s8) \<in> set (trace (snd (main w argv s)))"
  by (simp add: assms Call_in_trace finish_frame except_frame build_wheel_try_frame)

subsection \<open>The example runs\<close>

lemma demo_world_simps [simp]:
  "torch (demo_world b) = Some \<lparr>torch_version = ''2.1.0'', cuda = None\<rparr>"
  "cwd (demo_world b) = [''repo'']"
  "proc (demo_world b) = demo_proc b"
  "executable (demo_world b) = ''python3''"
  "colab_importable (demo_world b) = False"
  by (simp_all add: demo_world_def)

lemma demo_pips:
  "\<forall>dep \<in> set dependencies. \<forall>e t. proc (demo_world b) (pip_install (demo_world b) dep) e t = (0, t)"
  by (simp add: demo_proc_def pip_install_def)

lemma demo_build_cmd: "demo_proc b (build_cmd (demo_world b)) e t = b t"
  by (simp add: demo_proc_def build_cmd_def)

lemma disk_build_entry_eval:
  assumes "disk s = [([''drive'', ''wheels''], Directory), ([''drive''], Directory)] @ demo_disk"
  shows "disk (build_entry (demo_world b) out s) = demo_snap"
proof -
  obtain e t where s: "s = \<lparr>disk = [([''drive'', ''wheels''], Directory), ([''drive''], Directory)] @ demo_disk,
      environ = e, trace = t\<rparr>"
    using assms by (cases s) simp
  show ?thesis
    unfolding s
    by (simp add: build_entry_def stale_patterns_def glob_def listdir_def demo_disk_def demo_snap_def
          is_dir_def is_file_def stat_def rmtree_def unlink_def fs_rmtree_def fs_unlink_def print_def
          Let_def)
qed

lemma demo_mkdir:
  "fst (mkdir (demo_world b) (Path ''/drive/wheels'') (pre_mkdir (demo_world b) demo_state)) = Inr ()"
  "disk (snd (mkdir (demo_world b) (Path ''/drive/wheels'') (pre_mkdir (demo_world b) demo_state)))
     = [([''drive'', ''wheels''], Directory), ([''drive''], Directory)] @ demo_disk"
  by (simp_all add: mkdir_simps pre_mkdir_simps [OF demo_pips] demo_state_def path_eval stat_def
        fs_put_def demo_disk_def is_dir_def Let_def)

lemma demo_main:
  "\<exists>s8. disk s8 = demo_snap \<and> build_env s8 = demo_env \<and>
     main (demo_world b) demo_argv demo_state =
       finish (demo_world b) ''/drive/wheels''
         (except_CalledProcessError (build_wheel_try (demo_world b) (Path ''/drive/wheels'') s8))"
proof -
  let ?w = "demo_world b"
  let ?s6 = "snd (mkdir ?w (Path ''/drive/wheels'') (pre_mkdir ?w demo_state))"
  let ?s8 = "build_entry ?w (Path ''/drive/wheels'') ?s6"
  have "main ?w demo_argv demo_state =
       finish ?w (demo_argv ! 1)
         (except_CalledProcessError (build_wheel_try ?w (Path (demo_argv ! 1))
            (build_entry ?w (Path (demo_argv ! 1))
               (snd (mkdir ?w (Path (demo_argv ! 1)) (pre_mkdir ?w demo_state))))))"
    by (rule main_reaches_build)
       (simp_all add: demo_argv_def install_noop [OF demo_pips] demo_mkdir)
  then have "main ?w demo_argv demo_state =
       finish ?w ''/drive/wheels''
         (except_CalledProcessError (build_wheel_try ?w (Path ''/drive/wheels'') ?s8))"
    by (simp add: demo_argv_def)
  moreover have "disk ?s8 = demo_snap"
    by (rule disk_build_entry_eval) (rule demo_mkdir)
  moreover have "build_env ?s8 = demo_env"
    by (simp add: build_env_def build_entry_frame mkdir_simps pre_mkdir_simps [OF demo_pips]
          demo_state_def demo_env_def)
  ultimately show ?thesis by blast
qed

lemma demo_build_call:
  "Call (build_cmd (demo_world b)) demo_env demo_snap
     \<in> set (trace (snd (main (demo_world b) demo_argv demo_state)))"
proof -
  from demo_main [of b] obtain s8 where
    s8: "disk s8 = demo_snap" "build_env s8 = demo_env"
    "main (demo_world b) demo_argv demo_state =
       finish (demo_world b) ''/drive/wheels''
         (except_CalledProcessError (build_wheel_try (demo_world b) (Path ''/drive/wheels'') s8))"
    by blast
  from build_call_in_trace [OF s8(3)] s8(1,2) show ?thesis by simp
qed

lemma build_ok_glob:
  "glob (snd (build_ok demo_snap)) [''repo'', ''dist''] ''*.whl'' = [''pkg-1.0.whl'']"
  by (simp add: build_ok_def glob_def listdir_def demo_snap_def fs_put_def)

lemma demo_ok_run: "fst (main (demo_world build_ok) demo_argv demo_state) = Inr ()"
proof -
  let ?w = "demo_world build_ok"
  let ?out = "Path ''/drive/wheels''"
  from demo_main [of build_ok] obtain s8 where
    s8: "disk s8 = demo_snap" "build_env s8 = demo_env"
    "main ?w demo_argv demo_state =
       finish ?w ''/drive/wheels'' (except_CalledProcessError (build_wheel_try ?w ?out s8))"
    by blast
  let ?t = "snd (build_ok demo_snap)"
  have p: "proc ?w (build_cmd ?w) (build_env s8) (disk s8) = (0, ?t)"
    by (simp add: s8 demo_build_cmd build_ok_def)
  have g: "glob ?t (cwd ?w @ [''dist'']) ''*.whl'' = [''pkg-1.0.whl'']"
    using build_ok_glob by simp
  have d: "is_dir ?t (cwd ?w @ [''dist''])"
    by (simp add: build_ok_def is_dir_def stat_def fs_put_def)
  have f: "stat ?t (cwd ?w @ [''dist'', ''pkg-1.0.whl'']) = Some (RegularFile ''wheel'')"
    by (simp add: build_ok_def stat_def fs_put_def)
  have m: "made ?w ?out ?t"
    by (simp add: made_def path_eval build_ok_def demo_snap_def is_dir_def stat_def fs_put_def)
  have ne: "resolve ?w ?out \<noteq> cwd ?w @ [''dist'']"
    by (simp add: path_eval)
  have free: "stat ?t (resolve ?w ?out @ [''pkg-1.0.whl'']) = None
      \<or> (\<exists>c. stat ?t (resolve ?w ?out @ [''pkg-1.0.whl'']) = Some (RegularFile c))"
    by (simp add: path_eval build_ok_def demo_snap_def stat_def fs_put_def)
  note ok = try_one_wheel [OF p g d f m ne free]
  from finish_Inr [OF ok(1), of ?w "''/drive/wheels''"] show ?thesis
    unfolding s8(3) by simp
qed

lemma pip_fails_simps [simp]:
  "proc pip_fails = (\<lambda>cmd env t. (1, t))"
  "executable pip_fails = ''python3''"
  "torch pip_fails = Some \<lparr>torch_version = ''2.1.0'', cuda = None\<rparr>"
  by (simp_all add: pip_fails_def demo_world_def)

lemma pip_fails_run:
  "fst (main pip_fails demo_argv demo_state) = Inl (CalledProcessError 1 pip_setuptools)"
  "\<exists>evs. trace (snd (main pip_fails demo_argv demo_state))
           = evs @ [Call pip_setuptools Map.empty demo_disk]"
proof -
  let ?c = "check_colab_environment pip_fails (banner demo_state)"
  have t: "torch pip_fails \<noteq> None" by simp
  have c: "?c = (Inr (), snd ?c)"
    using check_colab_environment_result [of pip_fails "banner demo_state"] t
    by (cases ?c) simp
  have f: "disk (snd ?c) = demo_disk" "environ (snd ?c) = Map.empty"
    by (simp_all add: check_colab_environment_frame banner_def demo_state_def)
  have i: "install_build_dependencies pip_fails (snd ?c) =
      (Inl (CalledProcessError 1 pip_setuptools),
       snd ?c\<lparr>trace := trace (snd ?c) @
          [Print rule60, Print ''Installing Build Dependencies'', Print rule60,
           Print ''Installing setuptools>=68.0.0...'', Call pip_setuptools Map.empty demo_disk]\<rparr>)"
    by (simp add: install_build_dependencies_def dependencies_def check_call_def Let_def
          pip_install_def print_def f pip_setuptools_def)
  have m: "main pip_fails demo_argv demo_state = install_build_dependencies pip_fails (snd ?c)"
    unfolding main_unfold [of demo_argv pip_fails demo_state, simplified demo_argv_def, simplified]
      demo_argv_def
    by (subst c) (simp add: i)
  show "fst (main pip_fails demo_argv demo_state) = Inl (CalledProcessError 1 pip_setuptools)"
    unfolding m i by simp
  have "trace (snd (main pip_fails demo_argv demo_state))
      = (trace (snd ?c) @ [Print rule60, Print ''Installing Build Dependencies'', Print rule60,
           Print ''Installing setuptools>=68.0.0...'']) @ [Call pip_setuptools Map.empty demo_disk]"
    unfolding m i by simp
  then show "\<exists>evs. trace (snd (main pip_fails demo_argv demo_state))
           = evs @ [Call pip_setuptools Map.empty demo_disk]"
    by blast
qed

lemma nested_mkdir:
  "fst (mkdir (demo_world b) (Path ''dist/wheels'') (pre_mkdir (demo_world b) demo_state)) = Inr ()"
  "disk (snd (mkdir (demo_world b) (Path ''dist/wheels'') (pre_mkdir (demo_world b) demo_state)))
     = [([''repo'', ''dist'', ''wheels''], Directory), ([''repo'', ''dist''], Directory)] @ demo_disk"
  by (simp_all add: mkdir_simps pre_mkdir_simps [OF demo_pips] demo_state_def path_eval stat_def
        fs_put_def demo_disk_def is_dir_def Let_def)

lemma nested_build_entry:
  assumes "disk s = [([''repo'', ''dist'', ''wheels''], Directory), ([''repo'', ''dist''], Directory)] @ demo_disk"
  shows "disk (build_entry (demo_world b) out s) = nested_snap"
proof -
  obtain e t where s: "s = \<lparr>disk = [([''repo'', ''dist'', ''wheels''], Directory),
        ([''repo'', ''dist''], Directory)] @ demo_disk, environ = e, trace = t\<rparr>"
    using assms by (cases s) simp
  show ?thesis
    unfolding s
    by (simp add: build_entry_def stale_patterns_def glob_def listdir_def demo_disk_def nested_snap_def
          is_dir_def is_file_def stat_def rmtree_def unlink_def fs_rmtree_def fs_unlink_def print_def
          Let_def)
qed

lemma nested_main:
  "\<exists>s8. disk s8 = nested_snap \<and> build_env s8 = demo_env \<and>
     main (demo_world b) nested_argv demo_state =
       finish (demo_world b) ''dist/wheels''
         (except_CalledProcessError (build_wheel_try (demo_world b) (Path ''dist/wheels'') s8))"
proof -
  let ?w = "demo_world b"
  let ?s6 = "snd (mkdir ?w (Path ''dist/wheels'') (pre_mkdir ?w demo_state))"
  let ?s8 = "build_entry ?w (Path ''dist/wheels'') ?s6"
  have "main ?w nested_argv demo_state =
       finish ?w (nested_argv ! 1)
         (except_CalledProcessError (build_wheel_try ?w (Path (nested_argv ! 1))
            (build_entry ?w (Path (nested_argv ! 1))
               (snd (mkdir ?w (Path (nested_argv ! 1)) (pre_mkdir ?w demo_state))))))"
    by (rule main_reaches_build)
       (simp_all add: nested_argv_def install_noop [OF demo_pips] nested_mkdir)
  then have "main ?w nested_argv demo_state =
       finish ?w ''dist/wheels''
         (except_CalledProcessError (build_wheel_try ?w (Path ''dist/wheels'') ?s8))"
    by (simp add: nested_argv_def)
  moreover have "disk ?s8 = nested_snap"
    by (rule nested_build_entry) (rule nested_mkdir)
  moreover have "build_env ?s8 = demo_env"
    by (simp add: build_env_def build_entry_frame mkdir_simps pre_mkdir_simps [OF demo_pips]
          demo_state_def demo_env_def)
  ultimately show ?thesis by blast
qed

lemma dist_mkdir:
  "fst (mkdir (demo_world b) (Path ''dist'') (pre_mkdir (demo_world b) demo_state)) = Inr ()"
  "disk (snd (mkdir (demo_world b) (Path ''dist'') (pre_mkdir (demo_world b) demo_state)))
     = [([''repo'', ''dist''], Directory)] @ demo_disk"
  by (simp_all add: mkdir_simps pre_mkdir_simps [OF demo_pips] demo_state_def path_eval stat_def
        fs_put_def demo_disk_def is_dir_def Let_def)

lemma dist_build_entry:
  assumes "disk s = [([''repo'', ''dist''], Directory)] @ demo_disk"
  shows "disk (build_entry (demo_world b) out s) = nested_snap"
proof -
  obtain e t where s: "s = \<lparr>disk = [([''repo'', ''dist''], Directory)] @ demo_disk,
        environ = e, trace = t\<rparr>"
    using assms by (cases s) simp
  show ?thesis
    unfolding s
    by (simp add: build_entry_def stale_patterns_def glob_def listdir_def demo_disk_def nested_snap_def
          is_dir_def is_file_def stat_def rmtree_def unlink_def fs_rmtree_def fs_unlink_def print_def
          Let_def)
qed

lemma dist_main:
  "\<exists>s8. disk s8 = nested_snap \<and> build_env s8 = demo_env \<and>
     main (demo_world b) dist_argv demo_state =
       finish (demo_world b) ''dist''
         (except_CalledProcessError (build_wheel_try (demo_world b) (Path ''dist'') s8))"
proof -
  let ?w = "demo_world b"
  let ?s6 = "snd (mkdir ?w (Path ''dist'') (pre_mkdir ?w demo_state))"
  let ?s8 = "build_entry ?w (Path ''dist'') ?s6"
  have "main ?w dist_argv demo_state =
       finish ?w (dist_argv ! 1)
         (except_CalledProcessError (build_wheel_try ?w (Path (dist_argv ! 1))
            (build_entry ?w (Path (dist_argv ! 1))
               (snd (mkdir ?w (Path (dist_argv ! 1)) (pre_mkdir ?w demo_state))))))"
    by (rule main_reaches_build)
       (simp_all add: dist_argv_def install_noop [OF demo_pips] dist_mkdir)
  then have "main ?w dist_argv demo_state =
       finish ?w ''dist''
         (except_CalledProcessError (build_wheel_try ?w (Path ''dist'') ?s8))"
    by (simp add: dist_argv_def)
  moreover have "disk ?s8 = nested_snap"
    by (rule dist_build_entry) (rule dist_mkdir)
  moreover have "build_env ?s8 = demo_env"
    by (simp add: build_env_def build_entry_frame mkdir_simps pre_mkdir_simps [OF demo_pips]
          demo_state_def demo_env_def)
  ultimately show ?thesis by blast
qed

section \<open>The claims\<close>

subsection \<open>C1: the wheel reaches the output directory\<close>

text \<open>
  Claim C1 says that, given a valid output directory, the script ends with status 0, the
  wheel copied, whenever the build exits 0 and leaves exactly one wheel in \<^verbatim>\<open>dist\<close>.
  The output directory may be any path, relative or absolute, and need not exist. With
  the output directory \<^verbatim>\<open>dist\<close> the script creates the directory (line 90), the cleanup
  removes it (line 98), the build makes it again and leaves \<^verbatim>\<open>dist/pkg-1.0.whl\<close> there,
  and \<^verbatim>\<open>shutil.copy2\<close> is asked to copy that file onto itself (line 127): it raises
  \<^verbatim>\<open>SameFileError\<close>, which nothing catches, and the script ends with status 1.
\<close>

theorem wheel_copied_onto_itself:
  "fst (mkdir (demo_world build_ok) (Path (dist_argv ! 1))
          (pre_mkdir (demo_world build_ok) demo_state)) = Inr ()
   \<and> Call (build_cmd (demo_world build_ok)) demo_env nested_snap
       \<in> set (trace (snd (main (demo_world build_ok) dist_argv demo_state)))
   \<and> fst (proc (demo_world build_ok) (build_cmd (demo_world build_ok)) demo_env nested_snap) = 0
   \<and> glob (snd (proc (demo_world build_ok) (build_cmd (demo_world build_ok)) demo_env nested_snap))
       [''repo'', ''dist''] ''*.whl'' = [''pkg-1.0.whl'']
   \<and> fst (main (demo_world build_ok) dist_argv demo_state)
       = Inl (SameFileError [''repo'', ''dist'', ''pkg-1.0.whl''] [''repo'', ''dist'', ''pkg-1.0.whl''])
   \<and> exit_status (fst (main (demo_world build_ok) dist_argv demo_state)) = 1"
proof -
  let ?w = "demo_world build_ok"
  from dist_main [of build_ok] obtain s8 where
    s8: "disk s8 = nested_snap" "build_env s8 = demo_env"
    "main ?w dist_argv demo_state =
       finish ?w ''dist''
         (except_CalledProcessError (build_wheel_try ?w (Path ''dist'') s8))"
    by blast
  let ?t = "snd (build_ok nested_snap)"
  have p: "proc ?w (build_cmd ?w) (build_env s8) (disk s8) = (0, ?t)"
    by (simp add: s8 demo_build_cmd build_ok_def)
  have g: "glob ?t (cwd ?w @ [''dist'']) ''*.whl'' = [''pkg-1.0.whl'']"
    by (simp add: build_ok_def glob_def listdir_def nested_snap_def fs_put_def)
  have f: "stat ?t (cwd ?w @ [''dist'', ''pkg-1.0.whl'']) = Some (RegularFile ''wheel'')"
    by (simp add: build_ok_def stat_def fs_put_def)
  have d: "is_dir ?t (cwd ?w @ [''dist''])"
    by (simp add: build_ok_def is_dir_def stat_def fs_put_def)
  have l: "locate ?w ?t (joinpath (Path ''dist'') ''pkg-1.0.whl'')
      = Inr (cwd ?w @ [''dist'', ''pkg-1.0.whl''])"
    using d by (rule locate_wheel) simp
  note same = try_same_file [OF p g d f l]
  let ?x = "except_CalledProcessError (build_wheel_try ?w (Path ''dist'') s8)"
  obtain e sx where x: "?x = (Inl e, sx)"
    using same(1) by (cases ?x) auto
  have m: "main ?w dist_argv demo_state = (Inl e, sx)"
    unfolding s8(3) x by simp
  from same(1) have e: "e = SameFileError [''repo'', ''dist'', ''pkg-1.0.whl'']
      [''repo'', ''dist'', ''pkg-1.0.whl'']"
    unfolding x by simp
  have c: "Call (build_cmd ?w) demo_env nested_snap
      \<in> set (trace (snd (main ?w dist_argv demo_state)))"
    using build_call_in_trace [OF s8(3)] s8(1,2) by simp
  have q: "proc ?w (build_cmd ?w) demo_env nested_snap = (0, ?t)"
    using p s8(1,2) by simp
  have k: "fst (mkdir ?w (Path (dist_argv ! 1)) (pre_mkdir ?w demo_state)) = Inr ()"
    by (simp add: dist_argv_def dist_mkdir)
  from g have g': "glob ?t [''repo'', ''dist''] ''*.whl'' = [''pkg-1.0.whl'']" by simp
  show ?thesis
    unfolding m e q using k c g' by (simp add: m e)
qed

text \<open>
  Claim C1, amended. Take a run (from an empty trace) that starts the build, with an
  output path that on its way never enters \<^verbatim>\<open>build\<close>, \<^verbatim>\<open>dist\<close> or a \<^verbatim>\<open>*.egg-info\<close> of
  the working directory. When the build exits 0, leaves in the directory \<^verbatim>\<open>dist\<close>
  exactly one name matching \<^verbatim>\<open>*.whl\<close>, a regular file, leaves in place the directories
  on the way of the output path, and leaves under the wheel's name in the output
  directory nothing or a regular file, the script ends with status 0 and
  \<^verbatim>\<open><output_dir>/<name>\<close> is a regular file with the bytes of the built file; nothing else
  in the file system changes. That the output directory is there when the copy runs is
  not assumed: the script has made it.
\<close>

theorem wheel_copied_to_output_dir:
  assumes "trace s = []"
    and "Call (build_cmd w) env snap \<in> set (trace (snd (main w argv s)))"
    and "proc w (build_cmd w) env snap = (0, t')"
    and "glob t' (cwd w @ [''dist'']) ''*.whl'' = [n]"
    and "is_dir t' (cwd w @ [''dist''])"
    and "stat t' (cwd w @ [''dist'', n]) = Some (RegularFile content)"
    and "\<forall>p \<in> set (visited (start w (Path (argv ! 1))) (parts (Path (argv ! 1)))).
           (\<forall>m. stale_name m \<longrightarrow> \<not> prefix (cwd w @ [m]) p) \<and> (is_dir snap p \<longrightarrow> is_dir t' p)"
    and "stat t' (resolve w (Path (argv ! 1)) @ [n]) = None
         \<or> (\<exists>c. stat t' (resolve w (Path (argv ! 1)) @ [n]) = Some (RegularFile c))"
  shows "exit_status (fst (main w argv s)) = 0
    \<and> is_dir snap (resolve w (Path (argv ! 1)))
    \<and> stat (disk (snd (main w argv s))) (resolve w (Path (argv ! 1)) @ [n])
        = Some (RegularFile content)
    \<and> disk (snd (main w argv s))
        = fs_put (resolve w (Path (argv ! 1)) @ [n]) (RegularFile content) t'"
proof -
  let ?out = "Path (argv ! 1)"
  let ?v = "set (visited (start w ?out) (parts ?out))"
  from main_build_call [OF assms(1,2)] obtain s4 where
    b: "made w ?out (disk s4)"
      "env = build_env (build_entry w ?out s4)"
      "snap = disk (build_entry w ?out s4)"
      "main w argv s =
         finish w (argv ! 1)
           (except_CalledProcessError (build_wheel_try w ?out (build_entry w ?out s4)))"
    by blast
  let ?s8 = "build_entry w ?out s4"
  have p: "proc w (build_cmd w) (build_env ?s8) (disk ?s8) = (0, t')"
    using assms(3) b(2,3) by simp
  have v: "is_dir snap q \<and> is_dir t' q" if "q \<in> ?v" "is_dir (disk s4) q" for q
  proof -
    from assms(7) that(1) have 1: "\<forall>m. stale_name m \<longrightarrow> \<not> prefix (cwd w @ [m]) q"
      and 2: "is_dir snap q \<longrightarrow> is_dir t' q"
      by blast+
    from build_entry_keeps [OF 1, of ?out s4] that(2) b(3) have "is_dir snap q"
      by (simp add: is_dir_def)
    with 2 show ?thesis by simp
  qed
  have r: "resolve w ?out \<in> ?v" by (simp add: resolve_def norm_visited)
  have e: "set (entered (start w ?out) (parts ?out)) \<subseteq> ?v" by (rule entered_visited)
  from b(1) have m4: "is_dir (disk s4) (resolve w ?out)"
    "\<forall>q \<in> set (entered (start w ?out) (parts ?out)). is_dir (disk s4) q"
    by (simp_all add: made_def)
  have there: "is_dir snap (resolve w ?out)" using v [OF r m4(1)] by simp
  have m: "made w ?out t'"
    unfolding made_def
  proof (intro conjI ballI)
    show "is_dir t' (resolve w ?out)" using v [OF r m4(1)] by simp
  next
    fix q assume q: "q \<in> set (entered (start w ?out) (parts ?out))"
    with e have "q \<in> ?v" by blast
    moreover from m4(2) q have "is_dir (disk s4) q" by blast
    ultimately show "is_dir t' q" using v by blast
  qed
  have "stale_name ''dist''" by (simp add: stale_name_def stale_patterns_def)
  with assms(7) r have "\<not> prefix (cwd w @ [''dist'']) (resolve w ?out)" by blast
  then have ne: "resolve w ?out \<noteq> cwd w @ [''dist'']" by auto
  note ok = try_one_wheel [OF p assms(4,5,6) m ne assms(8)]
  from finish_Inr [OF ok(1), of w "argv ! 1"] ok(2)
  have "fst (main w argv s) = Inr ()"
    "disk (snd (main w argv s)) = fs_put (resolve w ?out @ [n]) (RegularFile content) t'"
    unfolding b(4) by simp_all
  with there show ?thesis by (simp add: stat_fs_put)
qed

text \<open>
  The run with the successful build and the output directory \<^verbatim>\<open>/drive/wheels\<close>, which
  is not there before the run.
\<close>

theorem wheel_copied_to_output_dir_witness:
  "\<not> is_dir (disk demo_state) [''drive'', ''wheels'']
   \<and> exit_status (fst (main (demo_world build_ok) demo_argv demo_state)) = 0
   \<and> stat (disk (snd (main (demo_world build_ok) demo_argv demo_state)))
        [''drive'', ''wheels'', ''pkg-1.0.whl''] = Some (RegularFile ''wheel'')"
proof -
  let ?w = "demo_world build_ok"
  let ?t = "snd (build_ok demo_snap)"
  have "\<forall>p \<in> set (visited (start ?w (Path (demo_argv ! 1))) (parts (Path (demo_argv ! 1)))).
           (\<forall>m. stale_name m \<longrightarrow> \<not> prefix (cwd ?w @ [m]) p) \<and> (is_dir demo_snap p \<longrightarrow> is_dir ?t p)"
    by (simp add: build_ok_def demo_snap_def demo_argv_def path_eval is_dir_def stat_def fs_put_def)
  moreover have "stat ?t (resolve ?w (Path (demo_argv ! 1)) @ [''pkg-1.0.whl'']) = None
      \<or> (\<exists>c. stat ?t (resolve ?w (Path (demo_argv ! 1)) @ [''pkg-1.0.whl'']) = Some (RegularFile c))"
    by (simp add: build_ok_def demo_snap_def demo_argv_def path_eval stat_def fs_put_def)
  moreover have "stat ?t (cwd ?w @ [''dist'', ''pkg-1.0.whl'']) = Some (RegularFile ''wheel'')"
    by (simp add: build_ok_def stat_def fs_put_def)
  moreover have "is_dir ?t (cwd ?w @ [''dist''])"
    by (simp add: build_ok_def is_dir_def stat_def fs_put_def)
  moreover have "proc ?w (build_cmd ?w) demo_env demo_snap = (0, ?t)"
    by (simp add: demo_build_cmd build_ok_def)
  moreover have "glob ?t (cwd ?w @ [''dist'']) ''*.whl'' = [''pkg-1.0.whl'']"
    using build_ok_glob by simp
  moreover have "trace demo_state = []" by (simp add: demo_state_def)
  moreover have "\<not> is_dir (disk demo_state) [''drive'', ''wheels'']"
    by (simp add: demo_state_def demo_disk_def is_dir_def stat_def)
  ultimately show ?thesis
    using wheel_copied_to_output_dir [of demo_state ?w demo_env demo_snap demo_argv
        ?t "''pkg-1.0.whl''" "''wheel''", OF _ demo_build_call]
    by (simp add: demo_argv_def path_eval stat_fs_put)
qed

subsection \<open>C2: the output directory at the moment of the copy\<close>

text \<open>
  Claim C2 says that the output directory exists when the copy runs, for every path the
  caller gives, those below \<^verbatim>\<open>build\<close>, \<^verbatim>\<open>dist\<close> or \<^verbatim>\<open>*.egg-info\<close> included. The script
  creates the directory (line 90, under the comment "Ensure output directory exists")
  before the cleanup, which removes it again when it lies below a matching name. With
  the output directory \<^verbatim>\<open>dist/wheels\<close> and a build that leaves \<^verbatim>\<open>dist/pkg-1.0.whl\<close>, the
  copy step is reached, the directory \<^verbatim>\<open>dist/wheels\<close> is not there, \<^verbatim>\<open>shutil.copy2\<close> raises
  \<^verbatim>\<open>FileNotFoundError\<close>, and the script ends with status 1.
\<close>

theorem output_dir_removed_by_cleanup:
  "fst (main (demo_world build_ok) nested_argv demo_state)
     = Inl (FileNotFoundError [''repo'', ''dist'', ''wheels'', ''pkg-1.0.whl''])
   \<and> exit_status (fst (main (demo_world build_ok) nested_argv demo_state)) = 1
   \<and> Copy2 [''repo'', ''dist'', ''pkg-1.0.whl''] [''repo'', ''dist'', ''wheels'', ''pkg-1.0.whl'']
       \<in> set (trace (snd (main (demo_world build_ok) nested_argv demo_state)))
   \<and> \<not> is_dir (disk (snd (main (demo_world build_ok) nested_argv demo_state)))
         [''repo'', ''dist'', ''wheels'']"
proof -
  let ?w = "demo_world build_ok"
  from nested_main [of build_ok] obtain s8 where
    s8: "disk s8 = nested_snap" "build_env s8 = demo_env"
    "main ?w nested_argv demo_state =
       finish ?w ''dist/wheels''
         (except_CalledProcessError (build_wheel_try ?w (Path ''dist/wheels'') s8))"
    by blast
  let ?t = "snd (build_ok nested_snap)"
  have p: "proc ?w (build_cmd ?w) (build_env s8) (disk s8) = (0, ?t)"
    by (simp add: s8 demo_build_cmd build_ok_def)
  have g: "glob ?t (cwd ?w @ [''dist'']) ''*.whl'' = [''pkg-1.0.whl'']"
    by (simp add: build_ok_def glob_def listdir_def nested_snap_def fs_put_def)
  have f: "stat ?t (cwd ?w @ [''dist'', ''pkg-1.0.whl'']) = Some (RegularFile ''wheel'')"
    by (simp add: build_ok_def stat_def fs_put_def)
  have r: "resolve ?w (Path ''dist/wheels'') = [''repo'', ''dist'', ''wheels'']"
    by (simp add: resolve_def absolute_def path_eval)
  have n: "stat ?t (resolve ?w (Path ''dist/wheels'')) = None"
    by (simp add: r build_ok_def stat_def fs_put_def nested_snap_def)
  have d: "is_dir ?t (cwd ?w @ [''dist''])"
    by (simp add: build_ok_def is_dir_def stat_def fs_put_def)
  have l: "locate ?w ?t (joinpath (Path ''dist/wheels'') ''pkg-1.0.whl'')
      = Inl (FileNotFoundError [''repo'', ''dist'', ''wheels'', ''pkg-1.0.whl''])"
    by (simp add: locate_def path_eval joinpath_def build_ok_def stat_def fs_put_def
          nested_snap_def)
  note miss = try_output_missing [OF p g d f l]
  let ?x = "except_CalledProcessError (build_wheel_try ?w (Path ''dist/wheels'') s8)"
  obtain e sx where x: "?x = (Inl e, sx)"
    using miss(1) by (cases ?x) auto
  have m: "main ?w nested_argv demo_state = (Inl e, sx)"
    unfolding s8(3) x by simp
  from miss have sx: "e = FileNotFoundError [''repo'', ''dist'', ''wheels'', ''pkg-1.0.whl'']"
    "disk sx = ?t"
    "Copy2 [''repo'', ''dist'', ''pkg-1.0.whl''] [''repo'', ''dist'', ''wheels'', ''pkg-1.0.whl'']
       \<in> set (trace sx)"
    unfolding x by (simp_all add: r)
  have "\<not> is_dir ?t [''repo'', ''dist'', ''wheels'']"
    using n by (simp add: r is_dir_def)
  with sx show ?thesis
    unfolding m by simp
qed

subsection \<open>C3: a failing build\<close>

text \<open>
  Claim C3. In a run (from an empty trace) whose build subprocess exits with a code other
  than 0, the script ends with status 1, prints the line
  \<^verbatim>\<open>Build failed with exit code <code>\<close> after the marker, calls \<^verbatim>\<open>shutil.copy2\<close> not once,
  and leaves the file system as the build left it.
\<close>

theorem build_failure_exits_1:
  assumes "trace s = []"
    and "Call (build_cmd w) env snap \<in> set (trace (snd (main w argv s)))"
    and "fst (proc w (build_cmd w) env snap) \<noteq> 0"
  shows "exit_status (fst (main w argv s)) = 1
    \<and> Print (cross_mark @ '' Build failed with exit code ''
              @ str_int (fst (proc w (build_cmd w) env snap)))
        \<in> set (trace (snd (main w argv s)))
    \<and> (\<forall>a b. Copy2 a b \<notin> set (trace (snd (main w argv s))))
    \<and> disk (snd (main w argv s)) = snd (proc w (build_cmd w) env snap)"
proof -
  from main_build_call [OF assms(1,2)] obtain s4 where
    b: "copies_of (trace (build_entry w (Path (argv ! 1)) s4)) = []"
      "env = build_env (build_entry w (Path (argv ! 1)) s4)"
      "snap = disk (build_entry w (Path (argv ! 1)) s4)"
      "main w argv s =
         finish w (argv ! 1)
           (except_CalledProcessError
              (build_wheel_try w (Path (argv ! 1)) (build_entry w (Path (argv ! 1)) s4)))"
    by blast
  let ?s8 = "build_entry w (Path (argv ! 1)) s4"
  have f: "fst (proc w (build_cmd w) (build_env ?s8) (disk ?s8)) \<noteq> 0"
    using assms(3) b(2,3) by simp
  have m: "main w argv s =
           (Inl (SystemExit 1),
            print (cross_mark @ '' Build failed with exit code ''
                   @ str_int (fst (proc w (build_cmd w) env snap)))
              (?s8\<lparr>disk := snd (proc w (build_cmd w) env snap),
                   trace := trace ?s8 @ [Call (build_cmd w) env snap]\<rparr>))"
    unfolding b(4) try_failed [OF f] using b(2,3) by simp
  have "copies_of (trace (snd (main w argv s))) = []"
    unfolding m using b(1) by simp
  then have "\<forall>a b. Copy2 a b \<notin> set (trace (snd (main w argv s)))"
    by (simp add: Copy2_in_trace)
  then show ?thesis unfolding m by simp
qed

text \<open>
  The run with the build that exits with code 2.
\<close>

theorem build_failure_exits_1_witness:
  "exit_status (fst (main (demo_world build_fails) demo_argv demo_state)) = 1
   \<and> Print (cross_mark @ '' Build failed with exit code 2'')
       \<in> set (trace (snd (main (demo_world build_fails) demo_argv demo_state)))
   \<and> (\<forall>a b. Copy2 a b \<notin> set (trace (snd (main (demo_world build_fails) demo_argv demo_state))))
   \<and> disk (snd (main (demo_world build_fails) demo_argv demo_state)) = demo_snap"
  using build_failure_exits_1 [of demo_state "demo_world build_fails" demo_env demo_snap demo_argv,
      OF _ demo_build_call]
  by (simp add: demo_state_def demo_build_cmd build_fails_def str_int_def str_nat.simps digit_def)

subsection \<open>C4: a build that leaves no wheel\<close>

text \<open>
  Claim C4. In a run (from an empty trace) whose build subprocess exits 0 and leaves no
  name matching \<^verbatim>\<open>*.whl\<close> in \<^verbatim>\<open>dist\<close> (or no \<^verbatim>\<open>dist\<close>), the script prints
  \<^verbatim>\<open>No wheel file found in dist/\<close> after the marker, ends with status 1, calls
  \<^verbatim>\<open>shutil.copy2\<close> not once, and leaves the file system as the build left it.
\<close>

theorem no_wheel_exits_1:
  assumes "trace s = []"
    and "Call (build_cmd w) env snap \<in> set (trace (snd (main w argv s)))"
    and "proc w (build_cmd w) env snap = (0, t')"
    and "glob t' (cwd w @ [''dist'']) ''*.whl'' = []"
  shows "exit_status (fst (main w argv s)) = 1
    \<and> Print (cross_mark @ '' No wheel file found in dist/'') \<in> set (trace (snd (main w argv s)))
    \<and> (\<forall>a b. Copy2 a b \<notin> set (trace (snd (main w argv s))))
    \<and> disk (snd (main w argv s)) = t'"
proof -
  from main_build_call [OF assms(1,2)] obtain s4 where
    b: "copies_of (trace (build_entry w (Path (argv ! 1)) s4)) = []"
      "env = build_env (build_entry w (Path (argv ! 1)) s4)"
      "snap = disk (build_entry w (Path (argv ! 1)) s4)"
      "main w argv s =
         finish w (argv ! 1)
           (except_CalledProcessError
              (build_wheel_try w (Path (argv ! 1)) (build_entry w (Path (argv ! 1)) s4)))"
    by blast
  let ?s8 = "build_entry w (Path (argv ! 1)) s4"
  have p: "proc w (build_cmd w) (build_env ?s8) (disk ?s8) = (0, t')"
    using assms(3) b(2,3) by simp
  have m: "main w argv s =
           (Inl (SystemExit 1),
            print (cross_mark @ '' No wheel file found in dist/'')
              (?s8\<lparr>disk := t', trace := trace ?s8 @ [Call (build_cmd w) env snap]\<rparr>))"
    unfolding b(4) try_no_wheel [OF p assms(4)] using b(2,3) by simp
  have "copies_of (trace (snd (main w argv s))) = []"
    unfolding m using b(1) by simp
  then have "\<forall>a b. Copy2 a b \<notin> set (trace (snd (main w argv s)))"
    by (simp add: Copy2_in_trace)
  then show ?thesis unfolding m by simp
qed

text \<open>
  The run with the build that succeeds and leaves nothing.
\<close>

theorem no_wheel_exits_1_witness:
  "exit_status (fst (main (demo_world build_empty) demo_argv demo_state)) = 1
   \<and> Print (cross_mark @ '' No wheel file found in dist/'')
       \<in> set (trace (snd (main (demo_world build_empty) demo_argv demo_state)))
   \<and> (\<forall>a b. Copy2 a b \<notin> set (trace (snd (main (demo_world build_empty) demo_argv demo_state))))
   \<and> disk (snd (main (demo_world build_empty) demo_argv demo_state)) = demo_snap"
  using no_wheel_exits_1 [of demo_state "demo_world build_empty" demo_env demo_snap demo_argv demo_snap,
      OF _ demo_build_call]
  by (simp add: demo_state_def demo_build_cmd build_empty_def glob_def listdir_def demo_snap_def)

subsection \<open>C5: failing subprocesses\<close>

text \<open>
  Claim C5 says that every subprocess failure is caught where the subprocess is called.
  The installer loop has no handler: when \<^verbatim>\<open>pip\<close> fails for the first dependency,
  \<^verbatim>\<open>CalledProcessError\<close> leaves \<^verbatim>\<open>main\<close> uncaught, and the failing subprocess is the last
  effect of the script, which prints no line of its own about it.
\<close>

theorem installer_failure_not_caught:
  "fst (main pip_fails demo_argv demo_state) = Inl (CalledProcessError 1 pip_setuptools)
   \<and> last (trace (snd (main pip_fails demo_argv demo_state)))
       = Call pip_setuptools Map.empty demo_disk"
  using pip_fails_run by auto

text \<open>
  Claim C5, amended. For every subprocess of a run (from an empty trace) that exits with a
  code other than 0, the script ends with status 1. If it is the build, the failure is
  caught: the script prints \<^verbatim>\<open>Build failed with exit code <code>\<close> and calls
  \<^verbatim>\<open>sys.exit(1)\<close>. Otherwise it is an installer invocation, and the failure is not caught:
  the run ends with the \<^verbatim>\<open>CalledProcessError\<close> that carries the exit code and the
  command, and the failing subprocess is the last effect of the run: the script prints
  nothing after it.
\<close>

theorem subprocess_failure_terminates:
  assumes "trace s = []"
    and "Call c e t \<in> set (trace (snd (main w argv s)))"
    and "fst (proc w c e t) \<noteq> 0"
  shows "exit_status (fst (main w argv s)) = 1
    \<and> (if c = build_cmd w
        then fst (main w argv s) = Inl (SystemExit 1)
             \<and> Print (cross_mark @ '' Build failed with exit code '' @ str_int (fst (proc w c e t)))
                 \<in> set (trace (snd (main w argv s)))
        else fst (main w argv s) = Inl (CalledProcessError (fst (proc w c e t)) c)
             \<and> c \<in> pip_install w ` set dependencies
             \<and> last (trace (snd (main w argv s))) = Call c e t)"
proof (cases "c = build_cmd w")
  case True
  from main_build_call [OF assms(1), of w e t argv] assms(2) True obtain s4 where
    b: "e = build_env (build_entry w (Path (argv ! 1)) s4)"
      "t = disk (build_entry w (Path (argv ! 1)) s4)"
      "main w argv s =
         finish w (argv ! 1)
           (except_CalledProcessError
              (build_wheel_try w (Path (argv ! 1)) (build_entry w (Path (argv ! 1)) s4)))"
    by blast
  let ?s8 = "build_entry w (Path (argv ! 1)) s4"
  have f: "fst (proc w (build_cmd w) (build_env ?s8) (disk ?s8)) \<noteq> 0"
    using assms(3) b(1,2) True by simp
  show ?thesis
    unfolding b(3) try_failed [OF f] using b(1,2) True by simp
next
  case False
  from main_run [OF assms(1), of w argv] show ?thesis
  proof
    assume a: "environ (snd (main w argv s)) = environ s \<and>
          copies_of (trace (snd (main w argv s))) = [] \<and>
          pip_calls w s (fst (main w argv s)) (trace (snd (main w argv s))) \<and>
          (\<exists>e. fst (main w argv s) = Inl e)"
    with assms(2,3) have "c \<in> pip_install w ` set dependencies"
      "fst (main w argv s) = Inl (CalledProcessError (fst (proc w c e t)) c)"
      "last (trace (snd (main w argv s))) = Call c e t"
      by (auto simp: Call_in_trace pip_calls_def)
    with False show ?thesis by simp
  next
    assume "\<exists>s4 s8. 2 \<le> length argv \<and> made w (Path (argv ! 1)) (disk s4) \<and>
            s8 = build_entry w (Path (argv ! 1)) s4 \<and> environ s8 = environ s \<and>
            copies_of (trace s8) = [] \<and>
            Mkdir (resolve w (Path (argv ! 1))) \<in> set (trace s8) \<and>
            (\<forall>(c, e, t) \<in> set (calls_of (trace s8)).
               c \<in> pip_install w ` set dependencies \<and> e = environ s \<and> fst (proc w c e t) = 0) \<and>
            main w argv s =
              finish w (argv ! 1)
                (except_CalledProcessError (build_wheel_try w (Path (argv ! 1)) s8))"
    then obtain s8 where b:
      "\<forall>(c, e, t) \<in> set (calls_of (trace s8)).
               c \<in> pip_install w ` set dependencies \<and> e = environ s \<and> fst (proc w c e t) = 0"
      "main w argv s =
              finish w (argv ! 1)
                (except_CalledProcessError (build_wheel_try w (Path (argv ! 1)) s8))"
      by blast
    have "calls_of (trace (snd (main w argv s)))
            = calls_of (trace s8) @ [(build_cmd w, build_env s8, disk s8)]"
      by (simp add: b(2) finish_frame except_frame build_wheel_try_frame)
    with assms(2) False have "(c, e, t) \<in> set (calls_of (trace s8))"
      by (auto simp: Call_in_trace)
    with b(1) have "fst (proc w c e t) = 0" by auto
    with assms(3) show ?thesis by simp
  qed
qed

text \<open>
  The run in which the first installer invocation exits with code 1, and the run in which
  the build exits with code 2.
\<close>

theorem subprocess_failure_terminates_witness:
  "exit_status (fst (main pip_fails demo_argv demo_state)) = 1
   \<and> fst (main pip_fails demo_argv demo_state) = Inl (CalledProcessError 1 pip_setuptools)
   \<and> pip_setuptools \<in> pip_install pip_fails ` set dependencies
   \<and> last (trace (snd (main pip_fails demo_argv demo_state)))
       = Call pip_setuptools Map.empty demo_disk
   \<and> fst (main (demo_world build_fails) demo_argv demo_state) = Inl (SystemExit 1)
   \<and> Print (cross_mark @ '' Build failed with exit code 2'')
       \<in> set (trace (snd (main (demo_world build_fails) demo_argv demo_state)))"
proof -
  have t: "trace demo_state = []" by (simp add: demo_state_def)
  from pip_fails_run(2) have c: "Call pip_setuptools Map.empty demo_disk
      \<in> set (trace (snd (main pip_fails demo_argv demo_state)))"
    by auto
  have p: "fst (proc pip_fails pip_setuptools Map.empty demo_disk) \<noteq> 0"
    "fst (proc pip_fails pip_setuptools Map.empty demo_disk) = 1"
    "pip_setuptools \<noteq> build_cmd pip_fails"
    by (simp_all add: pip_setuptools_def build_cmd_def)
  have q: "fst (proc (demo_world build_fails) (build_cmd (demo_world build_fails)) demo_env demo_snap) \<noteq> 0"
    "fst (proc (demo_world build_fails) (build_cmd (demo_world build_fails)) demo_env demo_snap) = 2"
    by (simp_all add: demo_build_cmd build_fails_def)
  from subprocess_failure_terminates [OF t c p(1)] subprocess_failure_terminates [OF t demo_build_call q(1)] p q
  show ?thesis
    by (simp add: str_int_def str_nat.simps digit_def)
qed

subsection \<open>C6: no argument\<close>

text \<open>
  Claim C6. With fewer than two entries in \<^verbatim>\<open>sys.argv\<close> (the script name alone),
  \<^verbatim>\<open>main\<close> calls \<^verbatim>\<open>sys.exit(1)\<close>, and all it has done is to print the docstring, the error
  line and the usage line, in this order: the file system and the environment are as
  before, and no subprocess has run.
\<close>

theorem no_argument_prints_usage:
  "length argv < 2 \<Longrightarrow>
   main w argv s =
     (Inl (SystemExit 1),
      s\<lparr>trace := trace s @ [Print doc, Print (nl @ ''Error: Output directory not specified''),
                            Print ''Usage: python build_colab.py <output_directory>'']\<rparr>)
   \<and> exit_status (fst (main w argv s)) = 1"
  by (simp add: main_def print_def)

text \<open>
  The run with the script name alone.
\<close>

theorem no_argument_prints_usage_witness:
  "exit_status (fst (main (demo_world build_ok) [''build_colab.py''] demo_state)) = 1
   \<and> disk (snd (main (demo_world build_ok) [''build_colab.py''] demo_state)) = demo_disk
   \<and> trace (snd (main (demo_world build_ok) [''build_colab.py''] demo_state))
       = [Print doc, Print (nl @ ''Error: Output directory not specified''),
          Print ''Usage: python build_colab.py <output_directory>'']"
  using no_argument_prints_usage [of "[''build_colab.py'']" "demo_world build_ok" demo_state]
  by (simp add: demo_state_def)

subsection \<open>C7: the environment check\<close>

text \<open>
  Claim C7. \<^verbatim>\<open>check_colab_environment\<close> ends the process, with status 1, exactly when
  \<^verbatim>\<open>torch\<close> cannot be imported. Otherwise it returns, whatever the other findings are;
  a missing \<^verbatim>\<open>google.colab\<close>, an unavailable CUDA and an unset (or empty) \<^verbatim>\<open>CUDA_HOME\<close>
  each print a warning line.
\<close>

theorem check_exits_only_without_torch:
  "fst (check_colab_environment w s) = (if torch w = None then Inl (SystemExit 1) else Inr ())
   \<and> exit_status (fst (check_colab_environment w s)) = (if torch w = None then 1 else 0)
   \<and> (\<not> colab_importable w \<longrightarrow>
        Print (warn_mark @ '' Warning: Not running in Google Colab'')
          \<in> set (trace (snd (check_colab_environment w s))))
   \<and> (\<forall>t. torch w = Some t \<and> cuda t = None \<longrightarrow>
        Print (warn_mark @ '' CUDA not available'')
          \<in> set (trace (snd (check_colab_environment w s))))
   \<and> (torch w \<noteq> None \<and> (environ s ''CUDA_HOME'' = None \<or> environ s ''CUDA_HOME'' = Some []) \<longrightarrow>
        Print (warn_mark @ '' CUDA_HOME not set'')
          \<in> set (trace (snd (check_colab_environment w s))))"
  by (auto simp: check_colab_environment_def Let_def split: option.splits prod.splits)

text \<open>
  The world without Colab and CUDA, and the empty environment: three warnings, and the
  check returns.
\<close>

theorem check_exits_only_without_torch_witness:
  "fst (check_colab_environment (demo_world build_ok) demo_state) = Inr ()
   \<and> Print (warn_mark @ '' Warning: Not running in Google Colab'')
       \<in> set (trace (snd (check_colab_environment (demo_world build_ok) demo_state)))
   \<and> Print (warn_mark @ '' CUDA not available'')
       \<in> set (trace (snd (check_colab_environment (demo_world build_ok) demo_state)))
   \<and> Print (warn_mark @ '' CUDA_HOME not set'')
       \<in> set (trace (snd (check_colab_environment (demo_world build_ok) demo_state)))"
  using check_exits_only_without_torch [of "demo_world build_ok" demo_state]
  by (simp add: demo_state_def)

subsection \<open>C8: the process environment\<close>

text \<open>
  Claim C8. A run (from an empty trace) leaves \<^verbatim>\<open>os.environ\<close> as it was. The build
  subprocess is given \<^verbatim>\<open>os.environ\<close> with the one key \<^verbatim>\<open>FLASH_ATTENTION_FORCE_BUILD\<close> set
  to \<^verbatim>\<open>TRUE\<close>; every other subprocess is given \<^verbatim>\<open>os.environ\<close> itself.
\<close>

theorem environ_untouched:
  assumes "trace s = []"
  shows "environ (snd (main w argv s)) = environ s
    \<and> (\<forall>c e t. Call c e t \<in> set (trace (snd (main w argv s))) \<longrightarrow>
         e = (if c = build_cmd w then (environ s)(''FLASH_ATTENTION_FORCE_BUILD'' \<mapsto> ''TRUE'')
              else environ s))"
proof -
  from main_run [OF assms, of w argv] show ?thesis
  proof
    assume a: "environ (snd (main w argv s)) = environ s \<and>
          copies_of (trace (snd (main w argv s))) = [] \<and>
          pip_calls w s (fst (main w argv s)) (trace (snd (main w argv s))) \<and>
          (\<exists>e. fst (main w argv s) = Inl e)"
    have "e = environ s \<and> c \<noteq> build_cmd w"
      if "Call c e t \<in> set (trace (snd (main w argv s)))" for c e t
    proof -
      from that a have "c \<in> pip_install w ` set dependencies" "e = environ s"
        by (auto simp: Call_in_trace pip_calls_def)
      then show ?thesis by (auto simp: pip_install_not_build)
    qed
    with a show ?thesis by auto
  next
    assume "\<exists>s4 s8. 2 \<le> length argv \<and> made w (Path (argv ! 1)) (disk s4) \<and>
            s8 = build_entry w (Path (argv ! 1)) s4 \<and> environ s8 = environ s \<and>
            copies_of (trace s8) = [] \<and>
            Mkdir (resolve w (Path (argv ! 1))) \<in> set (trace s8) \<and>
            (\<forall>(c, e, t) \<in> set (calls_of (trace s8)).
               c \<in> pip_install w ` set dependencies \<and> e = environ s \<and> fst (proc w c e t) = 0) \<and>
            main w argv s =
              finish w (argv ! 1)
                (except_CalledProcessError (build_wheel_try w (Path (argv ! 1)) s8))"
    then obtain s8 where b: "environ s8 = environ s"
      "\<forall>(c, e, t) \<in> set (calls_of (trace s8)).
               c \<in> pip_install w ` set dependencies \<and> e = environ s \<and> fst (proc w c e t) = 0"
      "main w argv s =
              finish w (argv ! 1)
                (except_CalledProcessError (build_wheel_try w (Path (argv ! 1)) s8))"
      by blast
    have env: "environ (snd (main w argv s)) = environ s"
      by (simp add: b(1,3) finish_frame except_frame build_wheel_try_frame)
    have calls: "calls_of (trace (snd (main w argv s)))
            = calls_of (trace s8) @ [(build_cmd w, build_env s8, disk s8)]"
      by (simp add: b(3) finish_frame except_frame build_wheel_try_frame)
    have "e = (if c = build_cmd w then (environ s)(''FLASH_ATTENTION_FORCE_BUILD'' \<mapsto> ''TRUE'')
              else environ s)"
      if "Call c e t \<in> set (trace (snd (main w argv s)))" for c e t
    proof -
      from that calls have "(c, e, t) \<in> set (calls_of (trace s8))
          \<or> (c = build_cmd w \<and> e = build_env s8)"
        by (auto simp: Call_in_trace)
      then show ?thesis
      proof
        assume "(c, e, t) \<in> set (calls_of (trace s8))"
        with b(2) have "c \<in> pip_install w ` set dependencies" "e = environ s" by auto
        then show ?thesis by (auto simp: pip_install_not_build)
      next
        assume "c = build_cmd w \<and> e = build_env s8"
        then show ?thesis by (simp add: build_env_def b(1))
      qed
    qed
    with env show ?thesis by blast
  qed
qed

text \<open>
  The run with the successful build.
\<close>

theorem environ_untouched_witness:
  "environ (snd (main (demo_world build_ok) demo_argv demo_state)) = environ demo_state
   \<and> Call (build_cmd (demo_world build_ok))
        ((environ demo_state)(''FLASH_ATTENTION_FORCE_BUILD'' \<mapsto> ''TRUE'')) demo_snap
       \<in> set (trace (snd (main (demo_world build_ok) demo_argv demo_state)))"
  using environ_untouched [of demo_state "demo_world build_ok" demo_argv] demo_build_call [of build_ok]
  by (simp add: demo_state_def demo_env_def)

subsection \<open>C9: the cleanup\<close>

text \<open>
  Claim C9. Whatever the state in which the cleanup runs, after it no name in the working
  directory that matches \<^verbatim>\<open>build\<close>, \<^verbatim>\<open>dist\<close> or \<^verbatim>\<open>*.egg-info\<close> is a directory or a
  regular file. The build subprocess of a run (from an empty trace) starts on such a
  file system, and a run that ends with status 0 has started the build subprocess. When
  the patterns match nothing, the cleanup changes nothing (and it has no way to raise).
\<close>

theorem stale_entries_removed_before_build:
  assumes "trace s = []"
  shows "(\<forall>s1 n. stale_name n \<longrightarrow>
            \<not> is_dir (disk (clean_previous_builds w stale_patterns s1)) (cwd w @ [n])
            \<and> \<not> is_file (disk (clean_previous_builds w stale_patterns s1)) (cwd w @ [n]))
    \<and> (\<forall>env snap. Call (build_cmd w) env snap \<in> set (trace (snd (main w argv s))) \<longrightarrow>
          (\<forall>n. stale_name n \<longrightarrow> \<not> is_dir snap (cwd w @ [n]) \<and> \<not> is_file snap (cwd w @ [n])))
    \<and> (fst (main w argv s) = Inr () \<longrightarrow>
          (\<exists>env snap. Call (build_cmd w) env snap \<in> set (trace (snd (main w argv s)))))
    \<and> (\<forall>s1. (\<forall>pat \<in> set stale_patterns. glob (disk s1) (cwd w) pat = []) \<longrightarrow>
              clean_previous_builds w stale_patterns s1 = s1)"
proof (intro conjI impI allI)
  fix s1 :: state and n
  assume "stale_name n"
  then have g: "gone (disk (clean_previous_builds w stale_patterns s1)) (cwd w @ [n])"
    by (rule stale_gone)
  from g show "\<not> is_dir (disk (clean_previous_builds w stale_patterns s1)) (cwd w @ [n])"
    by (simp add: gone_def)
  from g show "\<not> is_file (disk (clean_previous_builds w stale_patterns s1)) (cwd w @ [n])"
    by (simp add: gone_def)
next
  fix env snap n
  assume "Call (build_cmd w) env snap \<in> set (trace (snd (main w argv s)))"
  from main_build_call [OF assms this] obtain s4 where
    "snap = disk (build_entry w (Path (argv ! 1)) s4)"
    by blast
  moreover assume "stale_name n"
  ultimately have g: "gone snap (cwd w @ [n])"
    by (simp add: build_entry_gone)
  from g show "\<not> is_dir snap (cwd w @ [n])" by (simp add: gone_def)
  from g show "\<not> is_file snap (cwd w @ [n])" by (simp add: gone_def)
next
  assume ok: "fst (main w argv s) = Inr ()"
  from main_run [OF assms, of w argv]
  show "\<exists>env snap. Call (build_cmd w) env snap \<in> set (trace (snd (main w argv s)))"
  proof
    assume "environ (snd (main w argv s)) = environ s \<and>
          copies_of (trace (snd (main w argv s))) = [] \<and>
          pip_calls w s (fst (main w argv s)) (trace (snd (main w argv s))) \<and>
          (\<exists>e. fst (main w argv s) = Inl e)"
    with ok show ?thesis by simp
  next
    assume "\<exists>s4 s8. 2 \<le> length argv \<and> made w (Path (argv ! 1)) (disk s4) \<and>
            s8 = build_entry w (Path (argv ! 1)) s4 \<and> environ s8 = environ s \<and>
            copies_of (trace s8) = [] \<and>
            Mkdir (resolve w (Path (argv ! 1))) \<in> set (trace s8) \<and>
            (\<forall>(c, e, t) \<in> set (calls_of (trace s8)).
               c \<in> pip_install w ` set dependencies \<and> e = environ s \<and> fst (proc w c e t) = 0) \<and>
            main w argv s =
              finish w (argv ! 1)
                (except_CalledProcessError (build_wheel_try w (Path (argv ! 1)) s8))"
    then obtain s8 where "main w argv s =
              finish w (argv ! 1)
                (except_CalledProcessError (build_wheel_try w (Path (argv ! 1)) s8))"
      by blast
    from build_call_in_trace [OF this] show ?thesis by blast
  qed
next
  fix s1 :: state
  assume "\<forall>pat \<in> set stale_patterns. glob (disk s1) (cwd w) pat = []"
  then show "clean_previous_builds w stale_patterns s1 = s1"
    by (simp add: clean_previous_builds_noop)
qed

text \<open>
  The example run ends with status 0, so it has started the build; the directory
  \<^verbatim>\<open>build\<close> and the file \<^verbatim>\<open>old.egg-info\<close> are there before the run, and not when the
  build starts. On the file system that the cleanup left, a second cleanup changes
  nothing.
\<close>

theorem stale_entries_removed_before_build_witness:
  "is_dir (disk demo_state) [''repo'', ''build'']
   \<and> is_file (disk demo_state) [''repo'', ''old.egg-info'']
   \<and> \<not> is_dir (disk (clean_previous_builds (demo_world build_ok) stale_patterns demo_state))
         [''repo'', ''build'']
   \<and> (\<exists>env snap. Call (build_cmd (demo_world build_ok)) env snap
          \<in> set (trace (snd (main (demo_world build_ok) demo_argv demo_state)))
        \<and> \<not> is_dir snap [''repo'', ''build''] \<and> \<not> is_file snap [''repo'', ''old.egg-info''])
   \<and> clean_previous_builds (demo_world build_ok) stale_patterns (demo_state\<lparr>disk := demo_snap\<rparr>)
       = demo_state\<lparr>disk := demo_snap\<rparr>"
proof -
  let ?w = "demo_world build_ok"
  have s: "stale_name ''build''" "stale_name ''old.egg-info''"
    by (simp_all add: stale_name_def stale_patterns_def)
  have d: "is_dir (disk demo_state) [''repo'', ''build'']"
    "is_file (disk demo_state) [''repo'', ''old.egg-info'']"
    by (simp_all add: demo_state_def demo_disk_def is_dir_def is_file_def stat_def)
  have t: "trace demo_state = []" by (simp add: demo_state_def)
  have g: "\<forall>pat \<in> set stale_patterns. glob (disk (demo_state\<lparr>disk := demo_snap\<rparr>)) (cwd ?w) pat = []"
    by (simp add: stale_patterns_def glob_def listdir_def demo_snap_def)
  note c9 = stale_entries_removed_before_build [OF t, of ?w demo_argv]
  from c9 s(1) have a: "\<not> is_dir (disk (clean_previous_builds ?w stale_patterns demo_state))
      (cwd ?w @ [''build''])"
    by blast
  from c9 demo_ok_run obtain env snap where
    c: "Call (build_cmd ?w) env snap \<in> set (trace (snd (main ?w demo_argv demo_state)))"
    by blast
  with c9 s have "\<not> is_dir snap (cwd ?w @ [''build''])"
    "\<not> is_file snap (cwd ?w @ [''old.egg-info''])"
    by blast+
  with c have "\<exists>env snap. Call (build_cmd ?w) env snap
          \<in> set (trace (snd (main ?w demo_argv demo_state)))
        \<and> \<not> is_dir snap [''repo'', ''build''] \<and> \<not> is_file snap [''repo'', ''old.egg-info'']"
    by auto
  moreover from c9 g
  have "clean_previous_builds ?w stale_patterns (demo_state\<lparr>disk := demo_snap\<rparr>)
      = demo_state\<lparr>disk := demo_snap\<rparr>"
    by blast
  ultimately show ?thesis using d a by simp
qed

subsection \<open>C10: no rollback after a failure\<close>

text \<open>
  Claim C10. In a run (from an empty trace) whose build subprocess fails, or succeeds and
  leaves no wheel, the script ends with status 1 and the file system is the one the build
  left: nothing is restored. Before the build started, \<^verbatim>\<open>mkdir\<close> had run on the output
  directory and the cleanup had removed the stale entries; when the build starts, the
  output directory and every directory that its path enters are there, unless the path
  on its way enters \<^verbatim>\<open>build\<close>, \<^verbatim>\<open>dist\<close> or a \<^verbatim>\<open>*.egg-info\<close> of the working directory,
  which the cleanup removes.
\<close>

theorem failure_keeps_side_effects:
  assumes "trace s = []"
    and "Call (build_cmd w) env snap \<in> set (trace (snd (main w argv s)))"
    and "proc w (build_cmd w) env snap = (rc, t')"
    and "rc \<noteq> 0 \<or> glob t' (cwd w @ [''dist'']) ''*.whl'' = []"
  shows "exit_status (fst (main w argv s)) = 1
    \<and> disk (snd (main w argv s)) = t'
    \<and> (\<exists>pre post. trace (snd (main w argv s)) = pre @ Call (build_cmd w) env snap # post
          \<and> Mkdir (resolve w (Path (argv ! 1))) \<in> set pre)
    \<and> (\<forall>n. stale_name n \<longrightarrow> \<not> is_dir snap (cwd w @ [n]) \<and> \<not> is_file snap (cwd w @ [n]))
    \<and> ((\<forall>p \<in> set (visited (start w (Path (argv ! 1))) (parts (Path (argv ! 1)))).
           \<forall>n. stale_name n \<longrightarrow> \<not> prefix (cwd w @ [n]) p)
         \<longrightarrow> made w (Path (argv ! 1)) snap)"
proof -
  from main_build_call [OF assms(1,2)] obtain s4 where
    b: "made w (Path (argv ! 1)) (disk s4)"
      "Mkdir (resolve w (Path (argv ! 1))) \<in> set (trace (build_entry w (Path (argv ! 1)) s4))"
      "env = build_env (build_entry w (Path (argv ! 1)) s4)"
      "snap = disk (build_entry w (Path (argv ! 1)) s4)"
      "main w argv s =
         finish w (argv ! 1)
           (except_CalledProcessError
              (build_wheel_try w (Path (argv ! 1)) (build_entry w (Path (argv ! 1)) s4)))"
    by blast
  let ?s8 = "build_entry w (Path (argv ! 1)) s4"
  have p: "proc w (build_cmd w) (build_env ?s8) (disk ?s8) = (rc, t')"
    using assms(3) b(3,4) by simp
  have "\<exists>l. main w argv s =
           (Inl (SystemExit 1),
            print l (?s8\<lparr>disk := t', trace := trace ?s8 @ [Call (build_cmd w) env snap]\<rparr>))"
  proof (cases "rc = 0")
    case False
    then have "fst (proc w (build_cmd w) (build_env ?s8) (disk ?s8)) \<noteq> 0" using p by simp
    from try_failed [OF this, of "Path (argv ! 1)"] show ?thesis
      unfolding b(5) using p b(3,4) by simp blast
  next
    case True
    with assms(4) p have "proc w (build_cmd w) (build_env ?s8) (disk ?s8) = (0, t')"
      "glob t' (cwd w @ [''dist'']) ''*.whl'' = []"
      by simp_all
    from try_no_wheel [OF this, of "Path (argv ! 1)"] show ?thesis
      unfolding b(5) using b(3,4) by simp blast
  qed
  then obtain l where m: "main w argv s =
           (Inl (SystemExit 1),
            print l (?s8\<lparr>disk := t', trace := trace ?s8 @ [Call (build_cmd w) env snap]\<rparr>))"
    ..
  have 1: "exit_status (fst (main w argv s)) = 1" "disk (snd (main w argv s)) = t'"
    unfolding m by simp_all
  have "trace (snd (main w argv s)) = trace ?s8 @ Call (build_cmd w) env snap # [Print l]"
    unfolding m by simp
  with b(2) have 2: "\<exists>pre post. trace (snd (main w argv s)) = pre @ Call (build_cmd w) env snap # post
          \<and> Mkdir (resolve w (Path (argv ! 1))) \<in> set pre"
    by blast
  have 3: "\<forall>n. stale_name n \<longrightarrow> \<not> is_dir snap (cwd w @ [n]) \<and> \<not> is_file snap (cwd w @ [n])"
    using build_entry_gone [of _ w "Path (argv ! 1)" s4] b(4) by (simp add: gone_def)
  have 4: "made w (Path (argv ! 1)) snap"
    if v: "\<forall>p \<in> set (visited (start w (Path (argv ! 1))) (parts (Path (argv ! 1)))).
           \<forall>n. stale_name n \<longrightarrow> \<not> prefix (cwd w @ [n]) p"
  proof -
    let ?out = "Path (argv ! 1)"
    have k: "is_dir snap q"
      if "q \<in> set (visited (start w ?out) (parts ?out))" "is_dir (disk s4) q" for q
    proof -
      from v that(1) have "\<forall>n. stale_name n \<longrightarrow> \<not> prefix (cwd w @ [n]) q" by blast
      from build_entry_keeps [OF this, of ?out s4] that(2) b(4) show ?thesis
        by (simp add: is_dir_def)
    qed
    have r: "resolve w ?out \<in> set (visited (start w ?out) (parts ?out))"
      by (simp add: resolve_def norm_visited)
    have e: "set (entered (start w ?out) (parts ?out)) \<subseteq> set (visited (start w ?out) (parts ?out))"
      by (rule entered_visited)
    from b(1) have m4: "is_dir (disk s4) (resolve w ?out)"
      "\<forall>q \<in> set (entered (start w ?out) (parts ?out)). is_dir (disk s4) q"
      by (simp_all add: made_def)
    show ?thesis
      unfolding made_def
    proof (intro conjI ballI)
      show "is_dir snap (resolve w ?out)" using k [OF r m4(1)] .
    next
      fix q assume q: "q \<in> set (entered (start w ?out) (parts ?out))"
      with e have "q \<in> set (visited (start w ?out) (parts ?out))" by blast
      moreover from m4(2) q have "is_dir (disk s4) q" by blast
      ultimately show "is_dir snap q" by (rule k)
    qed
  qed
  from 1 2 3 4 show ?thesis by blast
qed

text \<open>
  The run with the failing build: \<^verbatim>\<open>/drive/wheels\<close> has been created and \<^verbatim>\<open>build\<close> removed,
  and both stay so.
\<close>

theorem failure_keeps_side_effects_witness:
  "exit_status (fst (main (demo_world build_fails) demo_argv demo_state)) = 1
   \<and> disk (snd (main (demo_world build_fails) demo_argv demo_state)) = demo_snap
   \<and> \<not> is_dir (disk demo_state) [''drive'', ''wheels'']
   \<and> is_dir demo_snap [''drive'', ''wheels'']
   \<and> is_dir (disk demo_state) [''repo'', ''build'']
   \<and> \<not> is_dir demo_snap [''repo'', ''build'']"
proof -
  have t: "trace demo_state = []" by (simp add: demo_state_def)
  have p: "proc (demo_world build_fails) (build_cmd (demo_world build_fails)) demo_env demo_snap
      = (2, demo_snap)"
    by (simp add: demo_build_cmd build_fails_def)
  have n: "\<forall>p \<in> set (visited (start (demo_world build_fails) (Path (demo_argv ! 1)))
                       (parts (Path (demo_argv ! 1)))).
      \<forall>n. stale_name n \<longrightarrow> \<not> prefix (cwd (demo_world build_fails) @ [n]) p"
    by (simp add: demo_argv_def path_eval)
  have s: "stale_name ''build''" by (simp add: stale_name_def stale_patterns_def)
  have d: "\<not> is_dir (disk demo_state) [''drive'', ''wheels'']"
    "is_dir (disk demo_state) [''repo'', ''build'']"
    by (simp_all add: demo_state_def demo_disk_def is_dir_def stat_def)
  from failure_keeps_side_effects [OF t demo_build_call p] n s d show ?thesis
    by (simp add: demo_argv_def path_eval made_def)
qed

end
